theory Spec2Isabelle
  imports Main
begin

section \<open>JavaScript values used by the agent loops\<close>

text \<open>
  The three loops of the repository (\<open>chatWithWebSearchStreaming\<close>,
  \<open>testGMIStreaming\<close> and \<open>chatWithCerebrasWebSearch\<close>) are asynchronous TypeScript
  functions. Every \<open>throw\<close> and every rejected \<open>await\<close> leaves the function, so an
  exception is a value of \<open>error\<close>. Console output is not modelled.
\<close>

datatype error =
    ProviderError
  | JsonSyntaxError
  | SerperApiError
  | ModelFinishedWithoutContent
  | ReachedMaxIterations

text \<open>
  \<open>ProviderError\<close>: the chat-completion call rejects (\<open>fetch\<close> fails, \<open>!response.ok\<close>,
  \<open>!response.body\<close>, a read of the stream rejects, the SDK throws).
  \<open>JsonSyntaxError\<close>: \<open>JSON.parse\<close> throws.
  \<open>SerperApiError\<close>: \<open>executeWebSearch\<close> throws.
  \<open>ModelFinishedWithoutContent\<close>: \<open>new Error('Model finished without providing content')\<close>.
  \<open>ReachedMaxIterations\<close>: \<open>new Error('Reached max iterations without completion')\<close>
  (\<open>'Reached max iterations'\<close> in \<open>testGMIStreaming\<close>).
\<close>

text \<open>
  A JavaScript array that is written by index (\<open>a[i] = v\<close>) may have holes: writing past
  the end extends it. A hole is \<open>None\<close>; reading a hole or past the end is \<open>undefined\<close>.
\<close>

definition js_get :: "'a option list \<Rightarrow> nat \<Rightarrow> 'a option" where
  "js_get xs i = (if i < length xs then xs ! i else None)"

definition js_set :: "'a option list \<Rightarrow> nat \<Rightarrow> 'a \<Rightarrow> 'a option list" where
  "js_set xs i v =
     (if i < length xs then xs[i := Some v]
      else xs @ replicate (i - length xs) None @ [Some v])"

text \<open>\<open>s.split('\n')\<close>: never empty, \<open>''.split('\n')\<close> is \<open>['']\<close>.\<close>

fun split_lines :: "string \<Rightarrow> string list" where
  "split_lines [] = [[]]"
| "split_lines (c # cs) =
     (if c = CHR 0x0A then [] # split_lines cs
      else (case split_lines cs of
              [] \<Rightarrow> [[c]]
            | l # ls \<Rightarrow> (c # l) # ls))"

text \<open>\<open>s.trim()\<close> on ASCII text: space, tab, line feed, vertical tab, form feed, carriage return.\<close>

definition is_space :: "char \<Rightarrow> bool" where
  "is_space c = (c \<in> set [CHR 0x20, CHR 0x09, CHR 0x0A, CHR 0x0B, CHR 0x0C, CHR 0x0D])"

definition trim :: "string \<Rightarrow> string" where
  "trim s = rev (dropWhile is_space (rev (dropWhile is_space s)))"

definition startsWith :: "string \<Rightarrow> string \<Rightarrow> bool" where
  "startsWith s p = (take (length p) s = p)"

section \<open>Stream fragments and the delta accumulator\<close>

text \<open>
  One element of \<open>assistantMessage.tool_calls\<close>: \<open>{id, type: 'function', function: {name,
  arguments}}\<close>. The \<open>type\<close> field is the constant \<open>'function'\<close>.
\<close>

record tool_call =
  tc_id :: string
  tc_name :: string
  tc_arguments :: string

text \<open>
  One element of \<open>delta.tool_calls\<close>: its \<open>index\<close>, and the optional \<open>id\<close>,
  \<open>function?.name\<close> and \<open>function?.arguments\<close> (\<open>None\<close> is \<open>undefined\<close>). The wire
  format types them: the index is a natural number, the others strings.
\<close>

record tool_call_delta =
  d_index :: nat
  d_id :: "string option"
  d_name :: "string option"
  d_arguments :: "string option"

text \<open>\<open>chunk.choices[0].delta\<close>: optional \<open>content\<close> and optional \<open>tool_calls\<close>.\<close>

record delta =
  delta_content :: "string option"
  delta_tool_calls :: "tool_call_delta list option"

text \<open>The \<open>assistantMessage\<close> under construction (\<open>role\<close> is the constant \<open>'assistant'\<close>).\<close>

record stream_message =
  sm_content :: string
  sm_tool_calls :: "tool_call option list"

definition emptyToolCall :: tool_call where
  "emptyToolCall = \<lparr>tc_id = [], tc_name = [], tc_arguments = []\<rparr>"

definition emptyMessage :: stream_message where
  "emptyMessage = \<lparr>sm_content = [], sm_tool_calls = []\<rparr>"

text \<open>
  The body of \<open>for (const toolCallDelta of delta.tool_calls)\<close>. \<open>updateToolCall\<close> is what
  it does to the object in the slot: overwrite the id by a truthy (non-empty) id, append a
  truthy name increment and a truthy argument increment. \<open>applyToolCallDelta\<close> allocates
  the slot first when \<open>!assistantMessage.tool_calls[index]\<close>.
\<close>

definition updateToolCall :: "tool_call \<Rightarrow> tool_call_delta \<Rightarrow> tool_call" where
  "updateToolCall toolCall d =
     (let toolCall1 = (case d_id d of
                         None \<Rightarrow> toolCall
                       | Some i \<Rightarrow> if i \<noteq> [] then toolCall\<lparr>tc_id := i\<rparr> else toolCall);
          toolCall2 = (case d_name d of
                         None \<Rightarrow> toolCall1
                       | Some n \<Rightarrow> if n \<noteq> [] then toolCall1\<lparr>tc_name := tc_name toolCall1 @ n\<rparr> else toolCall1)
      in (case d_arguments d of
            None \<Rightarrow> toolCall2
          | Some a \<Rightarrow> if a \<noteq> [] then toolCall2\<lparr>tc_arguments := tc_arguments toolCall2 @ a\<rparr> else toolCall2))"

definition applyToolCallDelta :: "tool_call option list \<Rightarrow> tool_call_delta \<Rightarrow> tool_call option list" where
  "applyToolCallDelta tcs d =
     (let toolCall = (case js_get tcs (d_index d) of None \<Rightarrow> emptyToolCall | Some tc \<Rightarrow> tc)
      in js_set tcs (d_index d) (updateToolCall toolCall d))"

text \<open>
  The handling of one decoded \<open>delta\<close>: \<open>if (delta.content) content += delta.content\<close>, then
  \<open>if (delta.tool_calls) for (...)\<close>.
\<close>

definition applyDelta :: "stream_message \<Rightarrow> delta \<Rightarrow> stream_message" where
  "applyDelta msg dl =
     (let msg1 = (case delta_content dl of
                    None \<Rightarrow> msg
                  | Some c \<Rightarrow> if c \<noteq> [] then msg\<lparr>sm_content := sm_content msg @ c\<rparr> else msg)
      in case delta_tool_calls dl of
           None \<Rightarrow> msg1
         | Some tcds \<Rightarrow> msg1\<lparr>sm_tool_calls := foldl applyToolCallDelta (sm_tool_calls msg1) tcds\<rparr>)"

text \<open>The accumulator over the fragment sequence of one assistant turn.\<close>

definition accumulate :: "delta list \<Rightarrow> stream_message" where
  "accumulate frags = foldl applyDelta emptyMessage frags"

section \<open>The stream frame decoder\<close>

text \<open>
  \<open>JSON.parse\<close> and the read \<open>chunk.choices[0]?.delta\<close> are a parameter \<open>decode\<close> of the
  decoder: \<open>Inl\<close> when either throws (caught by the \<open>try\<close> around the event), \<open>Inr None\<close>
  when the delta is absent (\<open>if (!delta) continue\<close>).
\<close>

type_synonym decoder = "string \<Rightarrow> error + delta option"

text \<open>The body of \<open>for (const line of lines)\<close>.\<close>

definition processLine :: "decoder \<Rightarrow> stream_message \<Rightarrow> string \<Rightarrow> stream_message" where
  "processLine decode msg line =
     (if trim line = [] \<or> trim line = ''data: [DONE]'' then msg
      else if \<not> startsWith line ''data: '' then msg
      else (case decode (drop 6 line) of
              Inl e \<Rightarrow> msg
            | Inr None \<Rightarrow> msg
            | Inr (Some dl) \<Rightarrow> applyDelta msg dl))"

text \<open>
  The \<open>while (true)\<close> loop over \<open>reader.read()\<close>: the chunks are the decoded texts in
  arrival order, and the empty list is \<open>done\<close>. What is left in the buffer at the end is
  dropped, as in the source.
\<close>

fun readStream :: "decoder \<Rightarrow> string \<Rightarrow> stream_message \<Rightarrow> string list \<Rightarrow> stream_message" where
  "readStream decode buffer msg [] = msg"
| "readStream decode buffer msg (v # rest) =
     (let lines = split_lines (buffer @ v)
      in readStream decode (last lines) (foldl (processLine decode) msg (butlast lines)) rest)"

text \<open>
  \<open>assistantMessage.tool_calls.filter(tc => tc.id)\<close> (a filter skips the holes), then
  \<open>delete assistantMessage.tool_calls\<close> when nothing is left.
\<close>

definition cleanToolCalls :: "tool_call option list \<Rightarrow> tool_call list option" where
  "cleanToolCalls tcs =
     (let kept = filter (\<lambda>tc. tc_id tc \<noteq> []) (List.map_filter (\<lambda>x. x) tcs)
      in if kept = [] then None else Some kept)"

section \<open>The search tool\<close>

text \<open>
  The arguments of one \<open>webSearch\<close> invocation after \<open>JSON.parse\<close>: \<open>args.query\<close> and
  \<open>args.numResults\<close> (\<open>None\<close> is \<open>undefined\<close>). A number is an integer here; the code reads
  no other type of them.
\<close>

record ws_args =
  arg_query :: "string option"
  arg_numResults :: "int option"

text \<open>An entry of \<open>data.organic\<close>, and of the normalised \<open>organic\<close> list.\<close>

record search_result =
  sr_title :: string
  sr_snippet :: string
  sr_link :: string

text \<open>The body of Serper's answer: \<open>data.organic\<close> and \<open>data.answerBox\<close>, either may be absent.\<close>

record serper_data =
  data_organic :: "search_result list option"
  data_answerBox :: "string option"

text \<open>The HTTP answer: \<open>response.ok\<close> and \<open>await response.json()\<close>, which may reject.\<close>

record serper_response =
  resp_ok :: bool
  resp_json :: "error + serper_data"

text \<open>What \<open>executeWebSearch\<close> returns: \<open>{organic, answerBox}\<close>.\<close>

record search_results =
  res_organic :: "search_result list"
  res_answerBox :: "string option"

text \<open>
  The outbound call \<open>fetch('https://google.serper.dev/search', {body: {q, num}})\<close> is a
  parameter: \<open>Inl\<close> when the fetch rejects.
\<close>

type_synonym serper = "string option \<Rightarrow> int \<Rightarrow> error + serper_response"

text \<open>\<open>xs.slice(0, n)\<close> for an integer \<open>n\<close>: a negative \<open>n\<close> counts from the end.\<close>

definition js_slice0 :: "int \<Rightarrow> 'a list \<Rightarrow> 'a list" where
  "js_slice0 n xs = (if n < 0 then take (nat (int (length xs) + n)) xs else take (nat n) xs)"

text \<open>\<open>x || d\<close> for an optional number: \<open>undefined\<close> and \<open>0\<close> are falsy.\<close>

definition orDefault :: "int option \<Rightarrow> int \<Rightarrow> int" where
  "orDefault x d = (case x of None \<Rightarrow> d | Some n \<Rightarrow> if n = 0 then d else n)"

text \<open>
  The \<open>return\<close> of the three \<open>executeWebSearch\<close> functions:
  \<open>data.organic?.slice(0, numResults).map(...) || []\<close> and \<open>data.answerBox || null\<close>
  (an absent answer box and the empty string are falsy and give \<open>null\<close>).
\<close>

definition normalizeResults :: "int \<Rightarrow> serper_data \<Rightarrow> search_results" where
  "normalizeResults numResults data =
     \<lparr>res_organic = (case data_organic data of None \<Rightarrow> [] | Some rs \<Rightarrow> js_slice0 numResults rs),
      res_answerBox = (case data_answerBox data of
                         None \<Rightarrow> None
                       | Some box \<Rightarrow> if box \<noteq> [] then Some box else None)\<rparr>"

text \<open>
  \<open>executeWebSearch(query, numResults = 10)\<close> of the Cerebras module: it throws when
  \<open>!response.ok\<close>.
\<close>

definition executeWebSearch_cerebras :: "serper \<Rightarrow> string option \<Rightarrow> int option \<Rightarrow> error + search_results" where
  "executeWebSearch_cerebras fetch query numResultsArg =
     (let numResults = (case numResultsArg of None \<Rightarrow> 10 | Some n \<Rightarrow> n)
      in case fetch query numResults of
           Inl e \<Rightarrow> Inl e
         | Inr response \<Rightarrow>
             if \<not> resp_ok response then Inl SerperApiError
             else (case resp_json response of
                     Inl e \<Rightarrow> Inl e
                   | Inr data \<Rightarrow> Inr (normalizeResults numResults data)))"

text \<open>\<open>executeWebSearch(query, numResults = 5)\<close> of \<open>testGMIStreaming\<close>: no check of \<open>response.ok\<close>.\<close>

definition executeWebSearch_gmi :: "serper \<Rightarrow> string option \<Rightarrow> int option \<Rightarrow> error + search_results" where
  "executeWebSearch_gmi fetch query numResultsArg =
     (let numResults = (case numResultsArg of None \<Rightarrow> 5 | Some n \<Rightarrow> n)
      in case fetch query numResults of
           Inl e \<Rightarrow> Inl e
         | Inr response \<Rightarrow>
             (case resp_json response of
                Inl e \<Rightarrow> Inl e
              | Inr data \<Rightarrow> Inr (normalizeResults numResults data)))"

text \<open>\<open>executeWebSearch(query)\<close> of \<open>chatWithWebSearchStreaming\<close>: \<open>num: 5\<close> and \<open>slice(0, 5)\<close>.\<close>

definition executeWebSearch_fixed :: "serper \<Rightarrow> string option \<Rightarrow> error + search_results" where
  "executeWebSearch_fixed fetch query =
     (case fetch query 5 of
        Inl e \<Rightarrow> Inl e
      | Inr response \<Rightarrow>
          (case resp_json response of
             Inl e \<Rightarrow> Inl e
           | Inr data \<Rightarrow> Inr (normalizeResults 5 data)))"

section \<open>Transcripts and requests\<close>

text \<open>
  The text of a system turn. The initial prompt is a constant of each function; the two
  corrective turns of the Cerebras controller carry \<open>maxToolCalls\<close>:
  \<open>AnswerNow n\<close> is \<open>You have completed ${n} searches and gathered sufficient information ...\<close>,
  \<open>LimitReached n\<close> is \<open>You have reached the maximum number of searches allowed (${n}) ...\<close>.
\<close>

datatype system_text = SearchPolicy | AnswerNow int | LimitReached int

text \<open>
  A turn of the transcript: a system turn, a turn given by the caller (\<open>{role, content}\<close>),
  the assistant's turn (\<open>content\<close> may be null, \<open>tool_calls\<close> may be absent), and a tool
  result \<open>{role: 'tool', tool_call_id, content: JSON.stringify(searchResults)}\<close>, kept
  unserialised.
\<close>

datatype message =
    SystemMsg system_text
  | InputMsg string string
  | AssistantMsg "string option" "tool_call list option"
  | ToolMsg string search_results

text \<open>
  A request to the chat-completion provider: the transcript, and whether \<open>tools\<close> (the
  \<open>webSearchTool\<close> schema, with \<open>tool_choice: 'auto'\<close>) is set. The model name, the token
  cap, the temperature and the streaming flag are constants of each call.
\<close>

record request =
  req_messages :: "message list"
  req_tools :: bool

text \<open>How one pass of a loop body ends: \<open>continue\<close>, \<open>return\<close> or \<open>throw\<close>.\<close>

datatype 'r step = Continue | Return 'r | Throw error

text \<open>How the function ends: it returns a value or throws.\<close>

datatype 'r outcome = Returned 'r | Thrown error

definition hasToolCalls :: "tool_call list option \<Rightarrow> bool" where
  "hasToolCalls tcs = (case tcs of None \<Rightarrow> False | Some l \<Rightarrow> length l > 0)"

section \<open>The Cerebras controller: \<open>chatWithCerebrasWebSearch\<close>\<close>

text \<open>\<open>completion.usage\<close>: prompt, completion and total tokens (\<open>|| 0\<close> when one is missing).\<close>

type_synonym usage = "int \<times> int \<times> int"

text \<open>\<open>completion.choices[0].message\<close> with \<open>completion.usage\<close>.\<close>

record completion =
  cmp_content :: "string option"
  cmp_tool_calls :: "tool_call list option"
  cmp_usage :: "usage option"

text \<open>An element of \<open>allSources\<close>: \<open>{title, url, snippet}\<close>.\<close>

record search_source =
  src_title :: string
  src_url :: string
  src_snippet :: string

text \<open>
  The collaborators: \<open>cerebras.chat.completions.create\<close> (\<open>Inl\<close> when it rejects, or when
  \<open>completion.choices[0]\<close> is missing), \<open>JSON.parse\<close> of an argument string followed by the
  reads of \<open>args.query\<close> and \<open>args.numResults\<close> (\<open>Inl\<close> when that throws), and the Serper
  call.
\<close>

record cerebras_env =
  create :: "request \<Rightarrow> error + completion"
  parseArgs :: "string \<Rightarrow> error + ws_args"
  fetchSerper :: serper

text \<open>
  The variables of the function, and two records of what it has sent: \<open>requests\<close> are the
  calls of \<open>create\<close>, \<open>serperCalls\<close> the calls of \<open>executeWebSearch\<close> (query and number).
\<close>

record cerebras_state =
  conversationMessages :: "message list"
  iteration :: int
  toolCallsCount :: int
  totalUsage :: usage
  allSources :: "search_source list"
  searchQueries :: "string option list"
  requests :: "request list"
  serperCalls :: "(string option \<times> int) list"

text \<open>\<open>options\<close>: the two caps (\<open>temperature\<close> and \<open>maxTokens\<close> only go into the request).\<close>

record options =
  opt_maxIterations :: "int option"
  opt_maxToolCalls :: "int option"

text \<open>\<open>xs.join(', ')\<close>; an \<open>undefined\<close> element is the empty string.\<close>

fun js_join :: "string \<Rightarrow> string option list \<Rightarrow> string" where
  "js_join sep [] = []"
| "js_join sep [x] = (case x of None \<Rightarrow> [] | Some t \<Rightarrow> t)"
| "js_join sep (x # y # ys) = (case x of None \<Rightarrow> [] | Some t \<Rightarrow> t) @ sep @ js_join sep (y # ys)"

text \<open>\<open>CerebrasWebSearchResult\<close> (without \<open>reasoning\<close>, which is copied from the provider).\<close>

record cerebras_result =
  result_content :: string
  result_usage :: usage
  result_toolCalls :: int
  result_searchMetadata :: "(string \<times> search_source list) option"

definition toSource :: "search_result \<Rightarrow> search_source" where
  "toSource r = \<lparr>src_title = sr_title r, src_url = sr_link r, src_snippet = sr_snippet r\<rparr>"

text \<open>
  \<open>for (const toolCall of assistantMessage.tool_calls)\<close>: an invocation of another name is
  passed over; a \<open>webSearch\<close> invocation ends the loop (\<open>break\<close>) when the count has
  reached the cap, and otherwise counts, parses, searches and appends the tool result.
  The first component is the exception that left the loop, if any.
\<close>

fun executeToolCalls ::
  "cerebras_env \<Rightarrow> int \<Rightarrow> tool_call list \<Rightarrow> cerebras_state \<Rightarrow> error option \<times> cerebras_state" where
  "executeToolCalls env maxToolCalls [] s = (None, s)"
| "executeToolCalls env maxToolCalls (toolCall # rest) s =
     (if tc_name toolCall = ''webSearch'' then
        (if toolCallsCount s \<ge> maxToolCalls then (None, s)
         else
           (let s1 = s\<lparr>toolCallsCount := toolCallsCount s + 1\<rparr>
            in case parseArgs env (tc_arguments toolCall) of
                 Inl e \<Rightarrow> (Some e, s1)
               | Inr args \<Rightarrow>
                   (let numResults = orDefault (arg_numResults args) 10;
                        s2 = s1\<lparr>serperCalls := serperCalls s1 @ [(arg_query args, numResults)]\<rparr>
                    in case executeWebSearch_cerebras (fetchSerper env) (arg_query args) (Some numResults) of
                         Inl e \<Rightarrow> (Some e, s2)
                       | Inr searchResults \<Rightarrow>
                           executeToolCalls env maxToolCalls rest
                             (s2\<lparr>searchQueries := searchQueries s2 @ [arg_query args],
                                 allSources := allSources s2 @ map toSource (res_organic searchResults),
                                 conversationMessages := conversationMessages s2 @
                                   [ToolMsg (tc_id toolCall) searchResults]\<rparr>))))
      else executeToolCalls env maxToolCalls rest s)"

definition addUsage :: "usage \<Rightarrow> usage option \<Rightarrow> usage" where
  "addUsage sofar u =
     (case u of
        None \<Rightarrow> sofar
      | Some (p, c, t) \<Rightarrow> (case sofar of (tp, tc, tt) \<Rightarrow> (tp + p, tc + c, tt + t)))"

definition finalResult :: "cerebras_state \<Rightarrow> string \<Rightarrow> cerebras_result" where
  "finalResult s content =
     \<lparr>result_content = content,
      result_usage = totalUsage s,
      result_toolCalls = toolCallsCount s,
      result_searchMetadata =
        (if length (allSources s) > 0 then Some (js_join '', '' (searchQueries s), allSources s)
         else None)\<rparr>"

text \<open>The body of \<open>while (iteration < maxIterations)\<close> after \<open>iteration++\<close>.\<close>

definition cerebras_turn ::
  "cerebras_env \<Rightarrow> int \<Rightarrow> cerebras_state \<Rightarrow> cerebras_result step \<times> cerebras_state" where
  "cerebras_turn env maxToolCalls s =
     (let shouldOfferTools = toolCallsCount s < maxToolCalls;
          s1 = (if \<not> shouldOfferTools \<and> iteration s > 1
                then s\<lparr>conversationMessages := conversationMessages s @ [SystemMsg (AnswerNow maxToolCalls)]\<rparr>
                else s);
          req = \<lparr>req_messages = conversationMessages s1, req_tools = shouldOfferTools\<rparr>;
          s2 = s1\<lparr>requests := requests s1 @ [req]\<rparr>
      in case create env req of
           Inl e \<Rightarrow> (Throw e, s2)
         | Inr assistantMessage \<Rightarrow>
             (let s3 = s2\<lparr>totalUsage := addUsage (totalUsage s2) (cmp_usage assistantMessage)\<rparr>;
                  s4 = s3\<lparr>conversationMessages := conversationMessages s3 @
                            [AssistantMsg (cmp_content assistantMessage) (cmp_tool_calls assistantMessage)]\<rparr>
              in if hasToolCalls (cmp_tool_calls assistantMessage) then
                   (if toolCallsCount s4 \<ge> maxToolCalls then
                      (Continue, s4\<lparr>conversationMessages := conversationMessages s4 @
                                      [SystemMsg (LimitReached maxToolCalls)]\<rparr>)
                    else
                      (case executeToolCalls env maxToolCalls
                              (case cmp_tool_calls assistantMessage of None \<Rightarrow> [] | Some l \<Rightarrow> l) s4 of
                         (Some e, s5) \<Rightarrow> (Throw e, s5)
                       | (None, s5) \<Rightarrow> (Continue, s5)))
                 else
                   (case cmp_content assistantMessage of
                      None \<Rightarrow> (Throw ModelFinishedWithoutContent, s4)
                    | Some content \<Rightarrow>
                        if content \<noteq> [] then (Return (finalResult s4 content), s4)
                        else (Throw ModelFinishedWithoutContent, s4))))"

text \<open>
  The loop \<open>while (iteration < maxIterations) { iteration++; ... }\<close> and the \<open>throw\<close> after
  it. The state that comes with the outcome is the state when the function ended.
\<close>

function cerebras_loop ::
  "cerebras_env \<Rightarrow> int \<Rightarrow> int \<Rightarrow> cerebras_state \<Rightarrow> cerebras_result outcome \<times> cerebras_state" where
  "cerebras_loop env maxIterations maxToolCalls s =
     (if iteration s < maxIterations then
        (case cerebras_turn env maxToolCalls (s\<lparr>iteration := iteration s + 1\<rparr>) of
           (Continue, s') \<Rightarrow> cerebras_loop env maxIterations maxToolCalls s'
         | (Return r, s') \<Rightarrow> (Returned r, s')
         | (Throw e, s') \<Rightarrow> (Thrown e, s'))
      else (Thrown ReachedMaxIterations, s))"
  by pat_completeness auto

lemma iteration_executeToolCalls:
  "executeToolCalls env maxToolCalls tcs s = (r, s') \<Longrightarrow> iteration s' = iteration s"
proof (induction env maxToolCalls tcs s arbitrary: r s' rule: executeToolCalls.induct)
  case (1 env maxToolCalls s)
  then show ?case by simp
next
  case (2 env maxToolCalls toolCall rest s)
  show ?case
  proof (cases "tc_name toolCall = ''webSearch''")
    case False
    then show ?thesis using 2 by simp
  next
    case True
    then show ?thesis using "2.prems" "2.IH"(1)
      by (fastforce simp: Let_def split: if_splits sum.splits)
  qed
qed

lemma iteration_cerebras_turn:
  "cerebras_turn env maxToolCalls s = (r, s') \<Longrightarrow> iteration s' = iteration s"
  by (auto simp: cerebras_turn_def Let_def
      split: sum.splits if_splits prod.splits option.splits
      dest!: iteration_executeToolCalls)

termination cerebras_loop
proof (relation "measure (\<lambda>(env, maxIterations, maxToolCalls, s). nat (maxIterations - iteration s))")
  show "wf (measure (\<lambda>(env, maxIterations, maxToolCalls, s). nat (maxIterations - iteration s)))"
    by simp
next
  fix env :: cerebras_env and maxIterations maxToolCalls :: int and s s' :: cerebras_state
    and x :: "cerebras_result step"
  assume lt: "iteration s < maxIterations"
    and turn: "(x, s') = cerebras_turn env maxToolCalls (s\<lparr>iteration := iteration s + 1\<rparr>)"
  have "iteration s' = iteration s + 1"
    using iteration_cerebras_turn [OF turn [symmetric]] by simp
  then show "((env, maxIterations, maxToolCalls, s'), (env, maxIterations, maxToolCalls, s))
          \<in> measure (\<lambda>(env, maxIterations, maxToolCalls, s). nat (maxIterations - iteration s))"
    using lt by simp
qed

declare cerebras_loop.simps [simp del]

text \<open>
  The entry point: \<open>options?.maxIterations || 4\<close>, \<open>options?.maxToolCalls || 2\<close>, and the
  transcript \<open>[systemPrompt, ...messages]\<close>.
\<close>

definition initialState :: "message list \<Rightarrow> cerebras_state" where
  "initialState messages =
     \<lparr>conversationMessages = SystemMsg SearchPolicy # messages,
      iteration = 0,
      toolCallsCount = 0,
      totalUsage = (0, 0, 0),
      allSources = [],
      searchQueries = [],
      requests = [],
      serperCalls = []\<rparr>"

definition chatWithCerebrasWebSearch ::
  "cerebras_env \<Rightarrow> message list \<Rightarrow> options option \<Rightarrow> cerebras_result outcome \<times> cerebras_state" where
  "chatWithCerebrasWebSearch env messages opts =
     (let maxIterations = orDefault (case opts of None \<Rightarrow> None | Some opt \<Rightarrow> opt_maxIterations opt) 4;
          maxToolCalls = orDefault (case opts of None \<Rightarrow> None | Some opt \<Rightarrow> opt_maxToolCalls opt) 2
      in cerebras_loop env maxIterations maxToolCalls (initialState messages))"

section \<open>The streaming loops: \<open>chatWithWebSearchStreaming\<close> and \<open>testGMIStreaming\<close>\<close>

text \<open>
  The collaborators: the \<open>fetch\<close> of the chat completion with the whole body read
  (\<open>Inl\<close> when the fetch or a read rejects, \<open>!response.ok\<close> or \<open>!response.body\<close>; otherwise
  the chunks in arrival order), the decoder of one event, \<open>JSON.parse\<close> of an argument
  string with the reads of \<open>args.query\<close> and \<open>args.numResults\<close>, and the Serper call.
\<close>

record gmi_env =
  fetchChat :: "request \<Rightarrow> error + string list"
  decodeEvent :: decoder
  gmi_parseArgs :: "string \<Rightarrow> error + ws_args"
  gmi_fetchSerper :: serper

text \<open>The variables of the loop, and the requests it has sent.\<close>

record gmi_state =
  messages :: "message list"
  gmi_iteration :: int
  toolCallCount :: int
  gmi_requests :: "request list"

text \<open>\<open>const maxIterations = 5\<close> and \<open>const maxToolCalls = 3\<close>, in both functions.\<close>

definition gmi_maxIterations :: int where
  "gmi_maxIterations = 5"

definition gmi_maxToolCalls :: int where
  "gmi_maxToolCalls = 3"

text \<open>\<open>{response, searchesPerformed}\<close>.\<close>

record gmi_result =
  response :: string
  searchesPerformed :: int

text \<open>
  \<open>for (const toolCall of assistantMessage.tool_calls)\<close>: a \<open>webSearch\<close> invocation is
  parsed, searched and answered by a tool result; there is no check of the count here.
  \<open>search\<close> is the call of \<open>executeWebSearch\<close> on the parsed arguments, which differs between
  the two functions.
\<close>

fun runToolCalls ::
  "(ws_args \<Rightarrow> error + search_results) \<Rightarrow> (string \<Rightarrow> error + ws_args) \<Rightarrow> tool_call list \<Rightarrow>
   gmi_state \<Rightarrow> error option \<times> gmi_state" where
  "runToolCalls search parse [] s = (None, s)"
| "runToolCalls search parse (toolCall # rest) s =
     (if tc_name toolCall = ''webSearch'' then
        (case parse (tc_arguments toolCall) of
           Inl e \<Rightarrow> (Some e, s)
         | Inr args \<Rightarrow>
             (case search args of
                Inl e \<Rightarrow> (Some e, s)
              | Inr searchResults \<Rightarrow>
                  runToolCalls search parse rest
                    (s\<lparr>messages := messages s @ [ToolMsg (tc_id toolCall) searchResults]\<rparr>)))
      else runToolCalls search parse rest s)"

text \<open>The body of \<open>while (iteration < maxIterations)\<close> after \<open>iteration++\<close>.\<close>

definition gmi_turn ::
  "(ws_args \<Rightarrow> error + search_results) \<Rightarrow> gmi_env \<Rightarrow> gmi_state \<Rightarrow> gmi_result step \<times> gmi_state" where
  "gmi_turn search env s =
     (let req = \<lparr>req_messages = messages s, req_tools = (toolCallCount s < gmi_maxToolCalls)\<rparr>;
          s1 = s\<lparr>gmi_requests := gmi_requests s @ [req]\<rparr>
      in case fetchChat env req of
           Inl e \<Rightarrow> (Throw e, s1)
         | Inr chunks \<Rightarrow>
             (let assistantMessage = readStream (decodeEvent env) [] emptyMessage chunks;
                  tool_calls = cleanToolCalls (sm_tool_calls assistantMessage);
                  s2 = s1\<lparr>messages := messages s1 @
                            [AssistantMsg (Some (sm_content assistantMessage)) tool_calls]\<rparr>
              in if hasToolCalls tool_calls then
                   (let calls = (case tool_calls of None \<Rightarrow> [] | Some l \<Rightarrow> l);
                        s3 = s2\<lparr>toolCallCount := toolCallCount s2 + int (length calls)\<rparr>
                    in case runToolCalls search (gmi_parseArgs env) calls s3 of
                         (Some e, s4) \<Rightarrow> (Throw e, s4)
                       | (None, s4) \<Rightarrow> (Continue, s4))
                 else if sm_content assistantMessage \<noteq> [] then
                   (Return \<lparr>response = sm_content assistantMessage,
                            searchesPerformed = toolCallCount s2\<rparr>, s2)
                 else (Throw ModelFinishedWithoutContent, s2)))"

function gmi_loop ::
  "(ws_args \<Rightarrow> error + search_results) \<Rightarrow> gmi_env \<Rightarrow> gmi_state \<Rightarrow> gmi_result outcome \<times> gmi_state" where
  "gmi_loop search env s =
     (if gmi_iteration s < gmi_maxIterations then
        (case gmi_turn search env (s\<lparr>gmi_iteration := gmi_iteration s + 1\<rparr>) of
           (Continue, s') \<Rightarrow> gmi_loop search env s'
         | (Return r, s') \<Rightarrow> (Returned r, s')
         | (Throw e, s') \<Rightarrow> (Thrown e, s'))
      else (Thrown ReachedMaxIterations, s))"
  by pat_completeness auto

lemma gmi_iteration_runToolCalls:
  "runToolCalls search parse tcs s = (r, s') \<Longrightarrow> gmi_iteration s' = gmi_iteration s"
proof (induction search parse tcs s arbitrary: r s' rule: runToolCalls.induct)
  case (1 search parse s)
  then show ?case by simp
next
  case (2 search parse toolCall rest s)
  show ?case
  proof (cases "tc_name toolCall = ''webSearch''")
    case False
    then show ?thesis using 2 by simp
  next
    case True
    then show ?thesis using "2.prems" "2.IH"(1)
      by (fastforce split: sum.splits)
  qed
qed

lemma gmi_iteration_gmi_turn:
  "gmi_turn search env s = (r, s') \<Longrightarrow> gmi_iteration s' = gmi_iteration s"
  by (auto simp: gmi_turn_def Let_def
      split: sum.splits if_splits prod.splits option.splits
      dest!: gmi_iteration_runToolCalls)

termination gmi_loop
proof (relation "measure (\<lambda>(search, env, s). nat (gmi_maxIterations - gmi_iteration s))")
  show "wf (measure (\<lambda>(search, env, s). nat (gmi_maxIterations - gmi_iteration s)))"
    by simp
next
  fix search :: "ws_args \<Rightarrow> error + search_results" and env :: gmi_env and s s' :: gmi_state
    and x :: "gmi_result step"
  assume lt: "gmi_iteration s < gmi_maxIterations"
    and turn: "(x, s') = gmi_turn search env (s\<lparr>gmi_iteration := gmi_iteration s + 1\<rparr>)"
  have "gmi_iteration s' = gmi_iteration s + 1"
    using gmi_iteration_gmi_turn [OF turn [symmetric]] by simp
  then show "((search, env, s'), (search, env, s))
          \<in> measure (\<lambda>(search, env, s). nat (gmi_maxIterations - gmi_iteration s))"
    using lt by simp
qed

declare gmi_loop.simps [simp del]

text \<open>The transcript both functions start from: the system prompt and the user's question.\<close>

definition gmi_initialState :: "string \<Rightarrow> gmi_state" where
  "gmi_initialState question =
     \<lparr>messages = [SystemMsg SearchPolicy, InputMsg ''user'' question],
      gmi_iteration = 0,
      toolCallCount = 0,
      gmi_requests = []\<rparr>"

text \<open>
  \<open>chatWithWebSearchStreaming(question)\<close>: it returns \<open>undefined\<close> at once when one of the two
  API keys is not set (\<open>keysSet\<close>), and searches with \<open>executeWebSearch(args.query)\<close>.
\<close>

definition chatWithWebSearchStreaming ::
  "bool \<Rightarrow> gmi_env \<Rightarrow> string \<Rightarrow> gmi_result option outcome \<times> gmi_state" where
  "chatWithWebSearchStreaming keysSet env question =
     (if \<not> keysSet then (Returned None, gmi_initialState question)
      else (case gmi_loop (\<lambda>args. executeWebSearch_fixed (gmi_fetchSerper env) (arg_query args))
                   env (gmi_initialState question) of
              (Returned r, s) \<Rightarrow> (Returned (Some r), s)
            | (Thrown e, s) \<Rightarrow> (Thrown e, s)))"

text \<open>
  \<open>testGMIStreaming()\<close>: the question is a constant, the search is
  \<open>executeWebSearch(args.query, args.numResults || 5)\<close>, and it returns nothing.
\<close>

definition testQuestion :: string where
  "testQuestion = ''What are the latest human trial results from Neuralink? - do a web search for me''"

definition testGMIStreaming :: "gmi_env \<Rightarrow> unit outcome \<times> gmi_state" where
  "testGMIStreaming env =
     (case gmi_loop (\<lambda>args. executeWebSearch_gmi (gmi_fetchSerper env) (arg_query args)
                               (Some (orDefault (arg_numResults args) 5)))
             env (gmi_initialState testQuestion) of
        (Returned r, s) \<Rightarrow> (Returned (), s)
      | (Thrown e, s) \<Rightarrow> (Thrown e, s))"

section \<open>The accumulator as the specification words it\<close>

text \<open>
  The tool-call increments of a fragment sequence in arrival order, those of one
  positional index, and the name and argument increment each carries (nothing when the
  field is absent).
\<close>

definition increments :: "delta list \<Rightarrow> tool_call_delta list" where
  "increments frags =
     concat (map (\<lambda>dl. case delta_tool_calls dl of None \<Rightarrow> [] | Some tcds \<Rightarrow> tcds) frags)"

definition increments_for :: "nat \<Rightarrow> tool_call_delta list \<Rightarrow> tool_call_delta list" where
  "increments_for i tcds = filter (\<lambda>d. d_index d = i) tcds"

definition name_increment :: "tool_call_delta \<Rightarrow> string" where
  "name_increment d = (case d_name d of None \<Rightarrow> [] | Some n \<Rightarrow> n)"

definition arguments_increment :: "tool_call_delta \<Rightarrow> string" where
  "arguments_increment d = (case d_arguments d of None \<Rightarrow> [] | Some a \<Rightarrow> a)"

text \<open>The last non-empty id among increments, \<open>cur\<close> when there is none.\<close>

fun last_id :: "string \<Rightarrow> tool_call_delta list \<Rightarrow> string" where
  "last_id cur [] = cur"
| "last_id cur (d # ds) =
     last_id (case d_id d of None \<Rightarrow> cur | Some i \<Rightarrow> if i \<noteq> [] then i else cur) ds"

section \<open>Sample collaborators and inputs\<close>

text \<open>A backslash and a double quote: an escaped quote inside a JSON string.\<close>

definition esc :: string where
  "esc = [CHR 0x5C, CHR 0x22]"

text \<open>Event payloads: two content events, an event cut off in the middle, and a tool-call event.\<close>

definition event_hel :: string where
  "event_hel = ''{\"choices\":[{\"delta\":{\"content\":\"Hel\"}}]}''"

definition event_lo :: string where
  "event_lo = ''{\"choices\":[{\"delta\":{\"content\":\"lo\"}}]}''"

definition event_corrupt :: string where
  "event_corrupt = ''{\"choices\":[{\"delta\":{\"conte''"

definition toolCallEvent :: "string \<Rightarrow> string \<Rightarrow> string" where
  "toolCallEvent k q =
     ''{\"choices\":[{\"delta\":{\"tool_calls\":[{\"index\":'' @ k @ '',\"id\":\"call_'' @ k @
     ''\",\"function\":{\"name\":\"webSearch\",\"arguments\":\"{'' @ esc @ ''query'' @ esc @ '':'' @
     esc @ q @ esc @ ''}\"}}]}}]}''"

definition queryArgs :: "string \<Rightarrow> string" where
  "queryArgs q = ''{\"query\":\"'' @ q @ ''\"}''"

definition toolCallDelta :: "nat \<Rightarrow> string \<Rightarrow> string \<Rightarrow> delta" where
  "toolCallDelta i k q =
     \<lparr>delta_content = None,
      delta_tool_calls = Some [\<lparr>d_index = i, d_id = Some (''call_'' @ k),
                                d_name = Some ''webSearch'', d_arguments = Some (queryArgs q)\<rparr>]\<rparr>"

text \<open>
  A decoder that knows the payloads above and reports every other text as a syntax
  error, as \<open>JSON.parse\<close> does for \<open>event_corrupt\<close>.
\<close>

definition sample_decode :: decoder where
  "sample_decode payload =
     (if payload = event_hel then Inr (Some \<lparr>delta_content = Some ''Hel'', delta_tool_calls = None\<rparr>)
      else if payload = event_lo then Inr (Some \<lparr>delta_content = Some ''lo'', delta_tool_calls = None\<rparr>)
      else if payload = toolCallEvent ''0'' ''a'' then Inr (Some (toolCallDelta 0 ''0'' ''a''))
      else if payload = toolCallEvent ''1'' ''b'' then Inr (Some (toolCallDelta 1 ''1'' ''b''))
      else if payload = toolCallEvent ''2'' ''c'' then Inr (Some (toolCallDelta 2 ''2'' ''c''))
      else if payload = toolCallEvent ''3'' ''d'' then Inr (Some (toolCallDelta 3 ''3'' ''d''))
      else Inl JsonSyntaxError)"

text \<open>An argument parser for the argument strings used below; \<open>not json\<close> is no JSON text.\<close>

definition sample_parseArgs :: "string \<Rightarrow> error + ws_args" where
  "sample_parseArgs a =
     (if a = queryArgs ''a'' then Inr \<lparr>arg_query = Some ''a'', arg_numResults = None\<rparr>
      else if a = queryArgs ''b'' then Inr \<lparr>arg_query = Some ''b'', arg_numResults = None\<rparr>
      else if a = queryArgs ''c'' then Inr \<lparr>arg_query = Some ''c'', arg_numResults = None\<rparr>
      else if a = queryArgs ''d'' then Inr \<lparr>arg_query = Some ''d'', arg_numResults = None\<rparr>
      else if a = ''{\"query\":\"a\",\"numResults\":50}''
        then Inr \<lparr>arg_query = Some ''a'', arg_numResults = Some 50\<rparr>
      else Inl JsonSyntaxError)"

text \<open>A search service that answers every query with the same three hits.\<close>

definition sample_hits :: "search_result list" where
  "sample_hits =
     [\<lparr>sr_title = ''t1'', sr_snippet = ''s1'', sr_link = ''l1''\<rparr>,
      \<lparr>sr_title = ''t2'', sr_snippet = ''s2'', sr_link = ''l2''\<rparr>,
      \<lparr>sr_title = ''t3'', sr_snippet = ''s3'', sr_link = ''l3''\<rparr>]"

definition sample_data :: serper_data where
  "sample_data = \<lparr>data_organic = Some sample_hits, data_answerBox = None\<rparr>"

definition sample_serper :: serper where
  "sample_serper q n = Inr \<lparr>resp_ok = True, resp_json = Inr sample_data\<rparr>"


text \<open>Tool invocations as a provider returns them.\<close>

definition searchCall :: "string \<Rightarrow> string \<Rightarrow> tool_call" where
  "searchCall k q = \<lparr>tc_id = ''call_'' @ k, tc_name = ''webSearch'', tc_arguments = queryArgs q\<rparr>"

definition otherCall :: "string \<Rightarrow> tool_call" where
  "otherCall k = \<lparr>tc_id = ''call_'' @ k, tc_name = ''calculator'', tc_arguments = ''{}''\<rparr>"

definition badCall :: "string \<Rightarrow> tool_call" where
  "badCall k = \<lparr>tc_id = ''call_'' @ k, tc_name = ''webSearch'', tc_arguments = ''not json''\<rparr>"

text \<open>
  A Cerebras provider that answers every request with the same tool invocations, and one
  that asks for them on the first request (a transcript of two turns) and answers with
  text afterwards.
\<close>

definition askingAlways :: "tool_call list \<Rightarrow> request \<Rightarrow> error + completion" where
  "askingAlways calls req = Inr \<lparr>cmp_content = None, cmp_tool_calls = Some calls, cmp_usage = None\<rparr>"

definition askingOnce :: "tool_call list \<Rightarrow> request \<Rightarrow> error + completion" where
  "askingOnce calls req =
     (if length (req_messages req) = 2
      then Inr \<lparr>cmp_content = None, cmp_tool_calls = Some calls, cmp_usage = None\<rparr>
      else Inr \<lparr>cmp_content = Some ''done'', cmp_tool_calls = None, cmp_usage = None\<rparr>)"

definition sample_env :: "(request \<Rightarrow> error + completion) \<Rightarrow> cerebras_env" where
  "sample_env provider = \<lparr>create = provider, parseArgs = sample_parseArgs, fetchSerper = sample_serper\<rparr>"

definition userTurn :: message where
  "userTurn = InputMsg ''user'' ''q''"

text \<open>
  A streaming provider: on the first request four tool-call events in one chunk,
  afterwards the two content events.
\<close>

definition sse :: "string \<Rightarrow> string" where
  "sse payload = ''data: '' @ payload @ [CHR 0x0A]"

definition fourCalls :: string where
  "fourCalls = sse (toolCallEvent ''0'' ''a'') @ sse (toolCallEvent ''1'' ''b'') @
               sse (toolCallEvent ''2'' ''c'') @ sse (toolCallEvent ''3'' ''d'')"

definition overAsking :: "request \<Rightarrow> error + string list" where
  "overAsking req =
     (if length (req_messages req) = 2 then Inr [fourCalls]
      else Inr [sse event_hel, sse event_lo])"

definition sample_gmi_env :: gmi_env where
  "sample_gmi_env =
     \<lparr>fetchChat = overAsking, decodeEvent = sample_decode,
      gmi_parseArgs = sample_parseArgs, gmi_fetchSerper = sample_serper\<rparr>"

text \<open>
  Fragments of two invocations that arrive interleaved, and fragments that give index 0
  the id \<open>call_a\<close> first and \<open>call_b\<close> later.
\<close>

definition interleaved :: "delta list" where
  "interleaved =
     [\<lparr>delta_content = None,
       delta_tool_calls = Some [\<lparr>d_index = 0, d_id = Some ''call_0'', d_name = Some ''web'',
                                 d_arguments = None\<rparr>]\<rparr>,
      \<lparr>delta_content = None,
       delta_tool_calls = Some [\<lparr>d_index = 1, d_id = Some ''call_1'', d_name = Some ''webSearch'',
                                 d_arguments = Some ''{\"query\":''\<rparr>,
                                \<lparr>d_index = 0, d_id = None, d_name = Some ''Search'',
                                 d_arguments = Some ''{\"que''\<rparr>]\<rparr>,
      \<lparr>delta_content = None,
       delta_tool_calls = Some [\<lparr>d_index = 0, d_id = None, d_name = None,
                                 d_arguments = Some ''ry\":\"a\"}''\<rparr>,
                                \<lparr>d_index = 1, d_id = None, d_name = None,
                                 d_arguments = Some ''\"b\"}''\<rparr>]\<rparr>]"

definition firstId :: delta where
  "firstId =
     \<lparr>delta_content = None,
      delta_tool_calls = Some [\<lparr>d_index = 0, d_id = Some ''call_a'', d_name = Some ''webSearch'',
                                d_arguments = None\<rparr>]\<rparr>"

definition secondId :: delta where
  "secondId =
     \<lparr>delta_content = None,
      delta_tool_calls = Some [\<lparr>d_index = 0, d_id = Some ''call_b'', d_name = None,
                                d_arguments = Some (queryArgs ''a'')\<rparr>]\<rparr>"

section \<open>Helpers for stating properties of the Cerebras controller\<close>

text \<open>
  The request a turn of the Cerebras controller sends from the state \<open>s\<close>: the corrective
  turn is appended first when no tools are offered and it is not the first iteration.
\<close>

definition sentRequest :: "int \<Rightarrow> cerebras_state \<Rightarrow> request" where
  "sentRequest m s =
     \<lparr>req_messages = conversationMessages s @
        (if \<not> toolCallsCount s < m \<and> iteration s > 1 then [SystemMsg (AnswerNow m)] else []),
      req_tools = (toolCallsCount s < m)\<rparr>"

text \<open>The state once the reply \<open>a\<close> to that request is appended to the transcript.\<close>

definition afterReply :: "int \<Rightarrow> completion \<Rightarrow> cerebras_state \<Rightarrow> cerebras_state" where
  "afterReply m a s =
     s\<lparr>requests := requests s @ [sentRequest m s],
       totalUsage := addUsage (totalUsage s) (cmp_usage a),
       conversationMessages := req_messages (sentRequest m s) @
          [AssistantMsg (cmp_content a) (cmp_tool_calls a)]\<rparr>"

text \<open>
  Sample states: after a first turn in which the provider asked for three searches
  (Cerebras, cap 2) and for four searches (streaming, cap 3).
\<close>

definition threeCalls :: "tool_call list" where
  "threeCalls = [searchCall ''0'' ''a'', searchCall ''1'' ''b'', searchCall ''2'' ''c'']"

definition afterOverAsking :: cerebras_state where
  "afterOverAsking =
     snd (cerebras_turn (sample_env (askingAlways threeCalls)) 2
            ((initialState [userTurn])\<lparr>iteration := 1\<rparr>))"

definition fixedSearch :: "ws_args \<Rightarrow> error + search_results" where
  "fixedSearch args = executeWebSearch_fixed sample_serper (arg_query args)"

definition gmi_afterOverAsking :: gmi_state where
  "gmi_afterOverAsking =
     snd (gmi_turn fixedSearch sample_gmi_env ((gmi_initialState ''q'')\<lparr>gmi_iteration := 1\<rparr>))"

definition threeOthers :: "tool_call list" where
  "threeOthers = [otherCall ''0'', otherCall ''1'', otherCall ''2'']"


definition firstTurnState :: cerebras_state where
  "firstTurnState = (initialState [userTurn])\<lparr>iteration := 1\<rparr>"

text \<open>
  What one \<open>webSearch\<close> invocation comes to in the Cerebras tool loop when it is run: the
  parsed arguments searched with \<open>args.numResults || 10\<close>. An invocation is answerable when
  it is a \<open>webSearch\<close> invocation for which neither the parse nor the search throws;
  \<open>toolMessage\<close> is the tool result then appended for it.
\<close>

definition toolResult :: "cerebras_env \<Rightarrow> tool_call \<Rightarrow> error + search_results" where
  "toolResult env tc =
     (case parseArgs env (tc_arguments tc) of
        Inl e \<Rightarrow> Inl e
      | Inr args \<Rightarrow>
          executeWebSearch_cerebras (fetchSerper env) (arg_query args)
            (Some (orDefault (arg_numResults args) 10)))"

definition answerable :: "cerebras_env \<Rightarrow> tool_call \<Rightarrow> bool" where
  "answerable env tc =
     (tc_name tc = ''webSearch'' \<and> (case toolResult env tc of Inl e \<Rightarrow> False | Inr r \<Rightarrow> True))"

definition toolMessage :: "cerebras_env \<Rightarrow> tool_call \<Rightarrow> message list" where
  "toolMessage env tc = (case toolResult env tc of Inl e \<Rightarrow> [] | Inr r \<Rightarrow> [ToolMsg (tc_id tc) r])"

text \<open>The invocation ids that the tool results of a transcript refer to, in order.\<close>

fun toolResultIds :: "message list \<Rightarrow> string list" where
  "toolResultIds [] = []"
| "toolResultIds (ToolMsg i r # ms) = i # toolResultIds ms"
| "toolResultIds (m # ms) = toolResultIds ms"

text \<open>More samples: an event and an invocation with an argument string that is no JSON.\<close>

definition badCallEvent :: string where
  "badCallEvent =
     ''{\"choices\":[{\"delta\":{\"tool_calls\":[{\"index\":0,\"id\":\"call_0\",\"function\":{\"name\":\"webSearch\",\"arguments\":\"not json\"}}]}}]}''"

definition bad_decode :: decoder where
  "bad_decode payload =
     (if payload = badCallEvent
      then Inr (Some \<lparr>delta_content = None,
                      delta_tool_calls = Some [\<lparr>d_index = 0, d_id = Some ''call_0'',
                                                d_name = Some ''webSearch'',
                                                d_arguments = Some ''not json''\<rparr>]\<rparr>)
      else Inl JsonSyntaxError)"

definition bad_gmi_env :: gmi_env where
  "bad_gmi_env =
     \<lparr>fetchChat = (\<lambda>req. Inr [sse badCallEvent]), decodeEvent = bad_decode,
      gmi_parseArgs = sample_parseArgs, gmi_fetchSerper = sample_serper\<rparr>"

definition badReply :: completion where
  "badReply = \<lparr>cmp_content = None, cmp_tool_calls = Some [badCall ''0''], cmp_usage = None\<rparr>"

definition bigCall :: tool_call where
  "bigCall = \<lparr>tc_id = ''call_0'', tc_name = ''webSearch'',
              tc_arguments = ''{\"query\":\"a\",\"numResults\":50}''\<rparr>"


definition threeReply :: completion where
  "threeReply = \<lparr>cmp_content = None, cmp_tool_calls = Some threeCalls, cmp_usage = None\<rparr>"






section \<open>Helpers for stating properties of the decoder and of the tool loops\<close>

text \<open>
  The fragment a line of the stream carries, in the words of the specification: a line
  that is blank, the end sentinel or no \<open>data: \<close> line carries none, and neither does an
  event whose payload is rejected or holds no delta. \<open>fragments\<close> are the fragments of a
  list of lines, in order.
\<close>

definition eventOf :: "decoder \<Rightarrow> string \<Rightarrow> delta option" where
  "eventOf decode line =
     (if trim line = [] \<or> trim line = ''data: [DONE]'' \<or> \<not> startsWith line ''data: '' then None
      else (case decode (drop 6 line) of
              Inl e \<Rightarrow> None
            | Inr None \<Rightarrow> None
            | Inr (Some dl) \<Rightarrow> Some dl))"

definition fragments :: "decoder \<Rightarrow> string list \<Rightarrow> delta list" where
  "fragments decode lines = List.map_filter (eventOf decode) lines"

text \<open>The complete lines of a raw text: what stands after the last line feed is no line.\<close>

definition completeLines :: "string \<Rightarrow> string list" where
  "completeLines raw = butlast (split_lines raw)"

text \<open>The test \<open>toolCall.function.name === 'webSearch'\<close>.\<close>

definition isWebSearch :: "tool_call \<Rightarrow> bool" where
  "isWebSearch tc = (tc_name tc = ''webSearch'')"

text \<open>
  The state of a streaming loop once the streamed reply is appended to the transcript and
  its invocations are counted, before the first of them is run.
\<close>

definition gmi_afterReply :: "gmi_env \<Rightarrow> string list \<Rightarrow> gmi_state \<Rightarrow> gmi_state" where
  "gmi_afterReply env chunks s =
     (let assistantMessage = readStream (decodeEvent env) [] emptyMessage chunks;
          tool_calls = cleanToolCalls (sm_tool_calls assistantMessage)
      in s\<lparr>gmi_requests := gmi_requests s @
              [\<lparr>req_messages = messages s, req_tools = (toolCallCount s < gmi_maxToolCalls)\<rparr>],
           messages := messages s @ [AssistantMsg (Some (sm_content assistantMessage)) tool_calls],
           toolCallCount := toolCallCount s +
              int (length (case tool_calls of None \<Rightarrow> [] | Some l \<Rightarrow> l))\<rparr>)"

text \<open>
  Sample turns that mix invocations: a search, another tool, an unparsable search and one
  more search; another tool followed by an unparsable search; another tool, two searches
  and an unparsable search.
\<close>

definition mixedCalls :: "tool_call list" where
  "mixedCalls = [searchCall ''0'' ''a'', otherCall ''1'', badCall ''2'', searchCall ''3'' ''d'']"

definition mixedReply :: completion where
  "mixedReply = \<lparr>cmp_content = None, cmp_tool_calls = Some mixedCalls, cmp_usage = None\<rparr>"




definition overMixed :: "tool_call list" where
  "overMixed = [otherCall ''9'', searchCall ''0'' ''a'', searchCall ''1'' ''b'', badCall ''2'']"

definition overMixedReply :: completion where
  "overMixedReply = \<lparr>cmp_content = None, cmp_tool_calls = Some overMixed, cmp_usage = None\<rparr>"

text \<open>
  A streamed reply with three invocations, the second with an argument string that is no
  JSON, and a decoder that knows its events.
\<close>

definition badCallEvent1 :: string where
  "badCallEvent1 =
     ''{\"choices\":[{\"delta\":{\"tool_calls\":[{\"index\":1,\"id\":\"call_1\",\"function\":{\"name\":\"webSearch\",\"arguments\":\"not json\"}}]}}]}''"

definition mixed_decode :: decoder where
  "mixed_decode payload =
     (if payload = badCallEvent1
      then Inr (Some \<lparr>delta_content = None,
                      delta_tool_calls = Some [\<lparr>d_index = 1, d_id = Some ''call_1'',
                                                d_name = Some ''webSearch'',
                                                d_arguments = Some ''not json''\<rparr>]\<rparr>)
      else sample_decode payload)"

definition mixedStream :: "string list" where
  "mixedStream = [sse (toolCallEvent ''0'' ''a'') @ sse badCallEvent1, sse (toolCallEvent ''2'' ''c'')]"

definition mixed_gmi_env :: gmi_env where
  "mixed_gmi_env =
     \<lparr>fetchChat = (\<lambda>req. Inr mixedStream), decodeEvent = mixed_decode,
      gmi_parseArgs = sample_parseArgs, gmi_fetchSerper = sample_serper\<rparr>"

text \<open>A raw stream with a corrupt event between content events and before a tool-call event.\<close>

definition corruptStream :: "string list" where
  "corruptStream =
     [sse event_hel @ ''data: '',
      event_corrupt @ [CHR 0x0A] @ sse event_lo @ sse (toolCallEvent ''0'' ''a'')]"

definition cleanStream :: "string list" where
  "cleanStream = [sse event_hel, sse event_lo @ sse (toolCallEvent ''0'' ''a'')]"

text \<open>
  States reached in the middle of a turn: the Cerebras controller after the search and the
  other tool of \<open>mixedCalls\<close> and before its unparsable invocation; the streaming loop after
  the first search of \<open>mixedStream\<close>; the Cerebras controller (cap 5) after one search.
\<close>

definition mixedBefore :: cerebras_state where
  "mixedBefore =
     snd (executeToolCalls (sample_env (askingOnce mixedCalls)) 2 [searchCall ''0'' ''a'', otherCall ''1'']
            (afterReply 2 mixedReply firstTurnState))"

definition gmi_mixedBefore :: gmi_state where
  "gmi_mixedBefore =
     snd (runToolCalls fixedSearch sample_parseArgs [searchCall ''0'' ''a'']
            (gmi_afterReply mixed_gmi_env mixedStream ((gmi_initialState ''q'')\<lparr>gmi_iteration := 1\<rparr>)))"

definition searchedOnce :: cerebras_state where
  "searchedOnce =
     snd (executeToolCalls (sample_env (askingOnce [bigCall])) 5 [searchCall ''0'' ''a''] firstTurnState)"

section \<open>Properties of the delta accumulator\<close>

lemma js_get_js_set: "js_get (js_set xs i v) j = (if j = i then Some v else js_get xs j)"
  by (auto simp: js_get_def js_set_def nth_append)

lemma js_get_Nil: "js_get [] i = None"
  by (simp add: js_get_def)

lemma js_get_applyToolCallDelta:
  "js_get (applyToolCallDelta tcs d) j =
     (if j = d_index d
      then Some (updateToolCall (case js_get tcs j of None \<Rightarrow> emptyToolCall | Some tc \<Rightarrow> tc) d)
      else js_get tcs j)"
  by (simp add: applyToolCallDelta_def js_get_js_set)

lemma js_get_foldl_other:
  "i \<notin> d_index ` set tcds \<Longrightarrow> js_get (foldl applyToolCallDelta tcs tcds) i = js_get tcs i"
  by (induction tcds arbitrary: tcs) (auto simp: js_get_applyToolCallDelta)

lemma js_get_foldl_index:
  "i \<in> d_index ` set tcds \<Longrightarrow>
   js_get (foldl applyToolCallDelta tcs tcds) i =
     Some (foldl updateToolCall (case js_get tcs i of None \<Rightarrow> emptyToolCall | Some tc \<Rightarrow> tc)
             (increments_for i tcds))"
proof (induction tcds arbitrary: tcs)
  case Nil
  then show ?case by simp
next
  case (Cons d ds)
  show ?case
  proof (cases "i \<in> d_index ` set ds")
    case True
    then show ?thesis
      using Cons.IH [of "applyToolCallDelta tcs d"]
      by (simp add: js_get_applyToolCallDelta increments_for_def)
  next
    case False
    with Cons.prems have eq: "d_index d = i" by auto
    have "increments_for i ds = []"
      using False by (auto simp: increments_for_def filter_empty_conv)
    then show ?thesis
      using False eq
      by (simp add: js_get_foldl_other js_get_applyToolCallDelta increments_for_def)
  qed
qed

lemma tc_name_foldl_update:
  "tc_name (foldl updateToolCall tc ds) = tc_name tc @ concat (map name_increment ds)"
  by (induction ds arbitrary: tc)
     (auto simp: updateToolCall_def name_increment_def Let_def split: option.splits)

lemma tc_arguments_foldl_update:
  "tc_arguments (foldl updateToolCall tc ds) = tc_arguments tc @ concat (map arguments_increment ds)"
  by (induction ds arbitrary: tc)
     (auto simp: updateToolCall_def arguments_increment_def Let_def split: option.splits)

lemma tc_id_foldl_update:
  "tc_id (foldl updateToolCall tc ds) = last_id (tc_id tc) ds"
  by (induction ds arbitrary: tc)
     (auto simp: updateToolCall_def Let_def split: option.splits)

lemma sm_tool_calls_foldl_applyDelta:
  "sm_tool_calls (foldl applyDelta msg frags) =
     foldl applyToolCallDelta (sm_tool_calls msg) (increments frags)"
  by (induction frags arbitrary: msg)
     (auto simp: applyDelta_def increments_def Let_def split: option.splits)

lemma sm_content_foldl_applyDelta:
  "sm_content (foldl applyDelta msg frags) =
     sm_content msg @ concat (map (\<lambda>dl. case delta_content dl of None \<Rightarrow> [] | Some c \<Rightarrow> c) frags)"
  by (induction frags arbitrary: msg)
     (auto simp: applyDelta_def Let_def split: option.splits)

lemma last_id_snoc:
  "last_id cur (ds @ [d]) =
     (case d_id d of None \<Rightarrow> last_id cur ds | Some i \<Rightarrow> if i \<noteq> [] then i else last_id cur ds)"
  by (induction ds arbitrary: cur) (auto split: option.splits)

text \<open>
  C2. For every fragment sequence of one assistant turn, the accumulator holds one
  invocation for each positional index that occurs among the tool-call increments, and
  none for any other index; the name of the invocation at an index is the concatenation, in
  arrival order, of the name increments for that index, and its argument string the
  concatenation of the argument increments for that index.
\<close>

theorem accumulate_groups_by_index:
  "map_option (\<lambda>tc. (tc_name tc, tc_arguments tc)) (js_get (sm_tool_calls (accumulate frags)) i) =
     (if i \<in> set (map d_index (increments frags))
      then Some (concat (map name_increment (increments_for i (increments frags))),
                 concat (map arguments_increment (increments_for i (increments frags))))
      else None)"
  by (simp add: accumulate_def sm_tool_calls_foldl_applyDelta js_get_foldl_index js_get_foldl_other
      tc_name_foldl_update tc_arguments_foldl_update emptyMessage_def emptyToolCall_def js_get_Nil)

theorem accumulate_groups_by_index_witness:
  "map_option (\<lambda>tc. (tc_name tc, tc_arguments tc)) (js_get (sm_tool_calls (accumulate interleaved)) 0) =
     Some (''webSearch'', queryArgs ''a'') \<and>
   map_option (\<lambda>tc. (tc_name tc, tc_arguments tc)) (js_get (sm_tool_calls (accumulate interleaved)) 1) =
     Some (''webSearch'', queryArgs ''b'') \<and>
   map_option (\<lambda>tc. (tc_name tc, tc_arguments tc)) (js_get (sm_tool_calls (accumulate interleaved)) 2) =
     None"
  unfolding accumulate_groups_by_index
  by (simp add: interleaved_def increments_def increments_for_def name_increment_def
      arguments_increment_def queryArgs_def)

text \<open>
  C6, as the claim states it, fails: after a fragment has given index 0 the id \<open>call_a\<close>, a
  later fragment with the id \<open>call_b\<close> replaces it, and the turn ends with the invocation
  under the id \<open>call_b\<close>; nothing is reported.
\<close>

theorem id_reassigned_counterexample:
  "map_option tc_id (js_get (sm_tool_calls (accumulate [firstId])) 0) = Some ''call_a'' \<and>
   cleanToolCalls (sm_tool_calls (accumulate [firstId, secondId])) =
     Some [\<lparr>tc_id = ''call_b'', tc_name = ''webSearch'', tc_arguments = queryArgs ''a''\<rparr>]"
  by (simp add: accumulate_def applyDelta_def applyToolCallDelta_def updateToolCall_def
      js_get_def js_set_def emptyMessage_def emptyToolCall_def firstId_def secondId_def
      cleanToolCalls_def List.map_filter_def Let_def)

text \<open>
  C6, amended. The id of the invocation at an index is the id of the last fragment for
  that index that carries a non-empty id, and the empty string when there is none: a later
  non-empty id replaces the stored one, whether that was empty or not, and a fragment with
  an absent or empty id leaves it as it is.
\<close>

theorem accumulate_id_last_wins:
  "map_option tc_id (js_get (sm_tool_calls (accumulate frags)) i) =
     (if i \<in> set (map d_index (increments frags))
      then Some (last_id [] (increments_for i (increments frags)))
      else None) \<and>
   last_id cur (ds @ [d]) =
     (case d_id d of None \<Rightarrow> last_id cur ds | Some j \<Rightarrow> if j \<noteq> [] then j else last_id cur ds)"
  by (simp add: accumulate_def sm_tool_calls_foldl_applyDelta js_get_foldl_index js_get_foldl_other
      tc_id_foldl_update emptyMessage_def emptyToolCall_def js_get_Nil last_id_snoc)

theorem accumulate_id_last_wins_witness:
  "map_option tc_id (js_get (sm_tool_calls (accumulate [firstId, secondId])) 0) = Some ''call_b''"
  using accumulate_id_last_wins [of "[firstId, secondId]" 0 "[]" "[]" "\<lparr>d_index = 0, d_id = None, d_name = None, d_arguments = None\<rparr>"]
  by (simp add: increments_def increments_for_def firstId_def secondId_def)

section \<open>Properties of the stream frame decoder\<close>

lemma split_lines_not_Nil: "split_lines s \<noteq> []"
  by (induction s) (auto split: list.splits)

lemma split_lines_no_newline: "CHR 0x0A \<notin> set s \<Longrightarrow> split_lines s = [s]"
  by (induction s) auto

lemma split_lines_append:
  "split_lines (a @ b) = butlast (split_lines a) @ split_lines (last (split_lines a) @ b)"
proof (induction a)
  case Nil
  then show ?case by simp
next
  case (Cons c cs)
  show ?case
  proof (cases "c = CHR 0x0A")
    case True
    then show ?thesis using Cons.IH by (simp add: split_lines_not_Nil)
  next
    case False
    obtain l ls where sp: "split_lines cs = l # ls"
      using split_lines_not_Nil [of cs] by (cases "split_lines cs") auto
    show ?thesis
    proof (cases ls)
      case Nil
      then show ?thesis using False sp Cons.IH by simp
    next
      case (Cons l' ls')
      then show ?thesis using False sp Cons.IH by simp
    qed
  qed
qed

lemma last_split_lines_no_newline: "CHR 0x0A \<notin> set (last (split_lines s))"
  by (induction s) (auto simp: split_lines_not_Nil split: list.splits)

lemma split_lines_line:
  "CHR 0x0A \<notin> set l \<Longrightarrow> split_lines (l @ CHR 0x0A # b) = l # split_lines b"
  by (induction l) auto

lemma split_lines_newline:
  "split_lines (a @ CHR 0x0A # b) = split_lines a @ split_lines b"
proof -
  have "split_lines (a @ CHR 0x0A # b) =
          butlast (split_lines a) @ split_lines (last (split_lines a) @ CHR 0x0A # b)"
    by (rule split_lines_append)
  also have "split_lines (last (split_lines a) @ CHR 0x0A # b) = last (split_lines a) # split_lines b"
    by (rule split_lines_line [OF last_split_lines_no_newline])
  finally show ?thesis
    by (simp add: split_lines_not_Nil)
qed

text \<open>
  Where the chunk boundaries fall does not matter: the loop processes the lines of the
  whole text, the part after the last line feed left out.
\<close>

lemma readStream_lines:
  "CHR 0x0A \<notin> set buffer \<Longrightarrow>
   readStream decode buffer msg chunks =
     foldl (processLine decode) msg (butlast (split_lines (buffer @ concat chunks)))"
proof (induction chunks arbitrary: buffer msg)
  case Nil
  then show ?case by (simp add: split_lines_no_newline)
next
  case (Cons v rest)
  have "split_lines (buffer @ v @ concat rest) =
          butlast (split_lines (buffer @ v)) @ split_lines (last (split_lines (buffer @ v)) @ concat rest)"
    using split_lines_append [of "buffer @ v" "concat rest"] by simp
  then show ?case
    using Cons.IH [OF last_split_lines_no_newline, of "buffer @ v"]
    by (simp add: Let_def butlast_append split_lines_not_Nil)
qed

lemma processLine_eventOf:
  "processLine decode msg line = (case eventOf decode line of None \<Rightarrow> msg | Some dl \<Rightarrow> applyDelta msg dl)"
  by (simp add: processLine_def eventOf_def split: sum.splits option.splits)

lemma foldl_processLine_fragments:
  "foldl (processLine decode) msg lines = foldl applyDelta msg (fragments decode lines)"
  by (induction lines arbitrary: msg)
     (simp_all add: fragments_def List.map_filter_def processLine_eventOf split: option.splits)

lemma fragments_append: "fragments decode (xs @ ys) = fragments decode xs @ fragments decode ys"
  by (simp add: fragments_def List.map_filter_def)

lemma fragments_malformed: "decode (drop 6 bad) = Inl e \<Longrightarrow> fragments decode [bad] = []"
  by (simp add: fragments_def List.map_filter_def eventOf_def)

text \<open>
  The turn read from a stream is the accumulation of the fragments of its complete lines,
  in order.
\<close>

lemma readStream_fragments:
  "readStream decode [] msg chunks = foldl applyDelta msg (fragments decode (completeLines (concat chunks)))"
  using readStream_lines [of "[]" decode msg chunks]
  by (simp add: foldl_processLine_fragments completeLines_def)

lemma completeLines_cut:
  assumes pre: "pre = [] \<or> last pre = CHR 0x0A"
  shows "completeLines (pre @ s) = completeLines pre @ completeLines s"
proof (cases "pre = []")
  case True
  then show ?thesis by (simp add: completeLines_def)
next
  case False
  with pre obtain p where p: "pre = p @ [CHR 0x0A]"
    by (metis append_butlast_last_id)
  have "split_lines (pre @ s) = split_lines p @ split_lines s"
    using split_lines_newline [of p s] p by simp
  moreover have "split_lines pre = split_lines p @ [[]]"
    using split_lines_newline [of p "[]"] p by simp
  ultimately show ?thesis
    by (simp add: completeLines_def butlast_append split_lines_not_Nil)
qed

lemma completeLines_line:
  "CHR 0x0A \<notin> set l \<Longrightarrow> completeLines (l @ CHR 0x0A # s) = l # completeLines s"
  by (simp add: completeLines_def split_lines_line split_lines_not_Nil)

text \<open>
  C8. A malformed event is skipped and decoding goes on. Let the raw text of a stream, cut
  into chunks in any way, hold a whole line \<open>bad\<close> whose payload the decoder rejects
  (\<open>JSON.parse\<close> or the read of \<open>chunk.choices[0]\<close> throws, before anything is
  accumulated), after a text \<open>pre\<close> of whole lines and before a text \<open>post\<close>. Then the
  turn read from the stream is the accumulation, in order, of the fragments of the lines
  before \<open>bad\<close> and of the fragments of the complete lines after it: every well-formed
  event after the corrupt one is decoded into its fragment and applied. It is the turn read
  from the same text with the line left out. In particular, when the line after \<open>bad\<close>
  is an event whose payload decodes to the fragment \<open>dl\<close>, then \<open>dl\<close> is applied to what
  the lines before \<open>bad\<close> gave, and the fragments of the rest follow. Reading a stream has
  no failing outcome: the result is a message. (An event that throws only while its tool
  calls are applied is no invalid payload: what it applied before the throw stays, so for
  the decoder it is an event that carries the fragments applied so far.)
\<close>

theorem malformed_event_is_skipped:
  assumes bad: "decode (drop 6 bad) = Inl e"
    and line: "CHR 0x0A \<notin> set bad"
    and pre: "pre = [] \<or> last pre = CHR 0x0A"
    and raw: "concat chunks = pre @ bad @ CHR 0x0A # post"
    and raw': "concat chunks' = pre @ post"
  shows "readStream decode [] msg chunks =
           foldl applyDelta msg (fragments decode (completeLines pre) @ fragments decode (completeLines post)) \<and>
         readStream decode [] msg chunks = readStream decode [] msg chunks' \<and>
         (CHR 0x0A \<notin> set good \<and> trim good \<noteq> [] \<and> trim good \<noteq> ''data: [DONE]'' \<and>
          startsWith good ''data: '' \<and> decode (drop 6 good) = Inr (Some dl) \<and>
          post = good @ CHR 0x0A # rest \<longrightarrow>
            readStream decode [] msg chunks =
              foldl applyDelta (applyDelta (foldl applyDelta msg (fragments decode (completeLines pre))) dl)
                (fragments decode (completeLines rest)))"
proof -
  have a: "completeLines (pre @ bad @ CHR 0x0A # post) = completeLines pre @ bad # completeLines post"
    using completeLines_cut [OF pre, of "bad @ CHR 0x0A # post"] completeLines_line [OF line, of post]
    by simp
  have b: "completeLines (pre @ post) = completeLines pre @ completeLines post"
    by (rule completeLines_cut [OF pre])
  have fb: "fragments decode (bad # completeLines post) = fragments decode (completeLines post)"
    using fragments_append [of decode "[bad]" "completeLines post"]
          fragments_malformed [of decode bad e, OF bad]
    by simp
  have 1: "readStream decode [] msg chunks =
           foldl applyDelta msg (fragments decode (completeLines pre) @ fragments decode (completeLines post))"
    by (simp add: readStream_fragments raw a fragments_append fb)
  have 2: "readStream decode [] msg chunks' =
           foldl applyDelta msg (fragments decode (completeLines pre) @ fragments decode (completeLines post))"
    by (simp add: readStream_fragments raw' b fragments_append)
  have 3: "readStream decode [] msg chunks =
              foldl applyDelta (applyDelta (foldl applyDelta msg (fragments decode (completeLines pre))) dl)
                (fragments decode (completeLines rest))"
    if g: "CHR 0x0A \<notin> set good \<and> trim good \<noteq> [] \<and> trim good \<noteq> ''data: [DONE]'' \<and>
          startsWith good ''data: '' \<and> decode (drop 6 good) = Inr (Some dl) \<and>
          post = good @ CHR 0x0A # rest"
  proof -
    have "completeLines post = good # completeLines rest"
      using g completeLines_line [of good rest] by simp
    moreover have "fragments decode (good # completeLines rest) = dl # fragments decode (completeLines rest)"
      using g by (simp add: fragments_def List.map_filter_def eventOf_def)
    ultimately show ?thesis using 1 by simp
  qed
  show ?thesis using 1 2 3 by simp
qed

theorem malformed_event_is_skipped_witness:
  "readStream sample_decode [] emptyMessage corruptStream =
     \<lparr>sm_content = ''Hello'', sm_tool_calls = [Some (searchCall ''0'' ''a'')]\<rparr> \<and>
   readStream sample_decode [] emptyMessage corruptStream =
     readStream sample_decode [] emptyMessage cleanStream"
proof -
  have bad: "sample_decode (drop 6 (''data: '' @ event_corrupt)) = Inl JsonSyntaxError"
    by code_simp
  have line: "CHR 0x0A \<notin> set (''data: '' @ event_corrupt)"
    by code_simp
  have pre: "sse event_hel = [] \<or> last (sse event_hel) = CHR 0x0A"
    by (simp add: sse_def)
  have raw: "concat corruptStream =
               sse event_hel @ (''data: '' @ event_corrupt) @ CHR 0x0A #
                 (sse event_lo @ sse (toolCallEvent ''0'' ''a''))"
    by (simp add: corruptStream_def)
  have raw': "concat cleanStream = sse event_hel @ (sse event_lo @ sse (toolCallEvent ''0'' ''a''))"
    by (simp add: cleanStream_def)
  have good: "CHR 0x0A \<notin> set (''data: '' @ event_lo) \<and> trim (''data: '' @ event_lo) \<noteq> [] \<and>
              trim (''data: '' @ event_lo) \<noteq> ''data: [DONE]'' \<and>
              startsWith (''data: '' @ event_lo) ''data: '' \<and>
              sample_decode (drop 6 (''data: '' @ event_lo)) =
                Inr (Some \<lparr>delta_content = Some ''lo'', delta_tool_calls = None\<rparr>) \<and>
              sse event_lo @ sse (toolCallEvent ''0'' ''a'') =
                (''data: '' @ event_lo) @ CHR 0x0A # sse (toolCallEvent ''0'' ''a'')"
    by code_simp
  have ev: "foldl applyDelta
              (applyDelta (foldl applyDelta emptyMessage (fragments sample_decode (completeLines (sse event_hel))))
                 \<lparr>delta_content = Some ''lo'', delta_tool_calls = None\<rparr>)
              (fragments sample_decode (completeLines (sse (toolCallEvent ''0'' ''a'')))) =
            \<lparr>sm_content = ''Hello'', sm_tool_calls = [Some (searchCall ''0'' ''a'')]\<rparr>"
    by code_simp
  note th = malformed_event_is_skipped
            [where decode = sample_decode and bad = "''data: '' @ event_corrupt"
               and e = JsonSyntaxError and pre = "sse event_hel"
               and post = "sse event_lo @ sse (toolCallEvent ''0'' ''a'')"
               and chunks = corruptStream and chunks' = cleanStream
               and msg = emptyMessage and good = "''data: '' @ event_lo"
               and dl = "\<lparr>delta_content = Some ''lo'', delta_tool_calls = None\<rparr>"
               and rest = "sse (toolCallEvent ''0'' ''a'')", OF bad line pre raw raw']
  have "readStream sample_decode [] emptyMessage corruptStream =
          foldl applyDelta
            (applyDelta (foldl applyDelta emptyMessage (fragments sample_decode (completeLines (sse event_hel))))
               \<lparr>delta_content = Some ''lo'', delta_tool_calls = None\<rparr>)
            (fragments sample_decode (completeLines (sse (toolCallEvent ''0'' ''a''))))"
    using th good by blast
  then have p1: "readStream sample_decode [] emptyMessage corruptStream =
     \<lparr>sm_content = ''Hello'', sm_tool_calls = [Some (searchCall ''0'' ''a'')]\<rparr>"
    using ev by (simp only:)
  have p2: "readStream sample_decode [] emptyMessage corruptStream =
     readStream sample_decode [] emptyMessage cleanStream"
    using th by blast
  show ?thesis using p1 p2 by blast
qed

section \<open>Properties of the loops\<close>

text \<open>
  What a pass of the tool loop, a turn and a whole run leave unchanged or only increase:
  the counter of tool calls never decreases, the Cerebras controller keeps it under the
  cap, the iteration counter ends under its cap, and the log of requests only grows.
\<close>

lemma executeToolCalls_frame:
  "executeToolCalls env m tcs s = (r, s') \<Longrightarrow>
     toolCallsCount s \<le> toolCallsCount s' \<and>
     (toolCallsCount s \<le> m \<longrightarrow> toolCallsCount s' \<le> m) \<and>
     requests s' = requests s \<and> iteration s' = iteration s"
proof (induction env m tcs s arbitrary: r s' rule: executeToolCalls.induct)
  case (1 env m s)
  then show ?case by simp
next
  case (2 env m toolCall rest s)
  show ?case
  proof (cases "tc_name toolCall = ''webSearch''")
    case False
    then show ?thesis using 2 by simp
  next
    case True
    then show ?thesis using "2.prems" "2.IH"(1)
      by (fastforce simp: Let_def split: if_splits sum.splits)
  qed
qed

lemma cerebras_turn_frame:
  "cerebras_turn env m s = (r, s') \<Longrightarrow>
     toolCallsCount s \<le> toolCallsCount s' \<and>
     (toolCallsCount s \<le> m \<longrightarrow> toolCallsCount s' \<le> m) \<and>
     requests s' = requests s @ [sentRequest m s] \<and> iteration s' = iteration s"
  by (auto simp: cerebras_turn_def Let_def sentRequest_def
      split: sum.splits if_splits prod.splits option.splits
      dest!: executeToolCalls_frame)

lemma cerebras_loop_frame:
  "cerebras_loop env mi m s = (r, s') \<Longrightarrow>
     toolCallsCount s \<le> toolCallsCount s' \<and>
     (toolCallsCount s \<le> m \<longrightarrow> toolCallsCount s' \<le> m) \<and>
     (iteration s \<le> mi \<longrightarrow> iteration s' \<le> mi) \<and> iteration s \<le> iteration s' \<and>
     (\<exists>new. requests s' = requests s @ new \<and>
        (m \<le> toolCallsCount s \<longrightarrow> (\<forall>q \<in> set new. \<not> req_tools q)))"
proof (induction env mi m s arbitrary: r s' rule: cerebras_loop.induct)
  case (1 env mi m s)
  show ?case
  proof (cases "iteration s < mi")
    case False
    then show ?thesis using "1.prems" by (simp add: cerebras_loop.simps)
  next
    case True
    obtain x t where turn: "cerebras_turn env m (s\<lparr>iteration := iteration s + 1\<rparr>) = (x, t)"
      by (cases "cerebras_turn env m (s\<lparr>iteration := iteration s + 1\<rparr>)")
    have fr: "toolCallsCount s \<le> toolCallsCount t"
      "toolCallsCount s \<le> m \<longrightarrow> toolCallsCount t \<le> m"
      "requests t = requests s @ [sentRequest m (s\<lparr>iteration := iteration s + 1\<rparr>)]"
      "iteration t = iteration s + 1"
      using cerebras_turn_frame [OF turn] by simp_all
    have notools: "m \<le> toolCallsCount s \<longrightarrow> \<not> req_tools (sentRequest m (s\<lparr>iteration := iteration s + 1\<rparr>))"
      by (simp add: sentRequest_def)
    show ?thesis
    proof (cases x)
      case Continue
      then have loop: "cerebras_loop env mi m t = (r, s')"
        using "1.prems" True turn by (simp add: cerebras_loop.simps)
      from "1.IH" [OF True turn [symmetric] Continue loop]
      show ?thesis using fr notools True by auto
    next
      case (Return v)
      then have "s' = t" using "1.prems" True turn by (simp add: cerebras_loop.simps)
      then show ?thesis using fr notools True by auto
    next
      case (Throw e)
      then have "s' = t" using "1.prems" True turn by (simp add: cerebras_loop.simps)
      then show ?thesis using fr notools True by auto
    qed
  qed
qed

lemma runToolCalls_frame:
  "runToolCalls search parse tcs s = (r, s') \<Longrightarrow>
     toolCallCount s' = toolCallCount s \<and> gmi_requests s' = gmi_requests s \<and>
     gmi_iteration s' = gmi_iteration s"
proof (induction search parse tcs s arbitrary: r s' rule: runToolCalls.induct)
  case (1 search parse s)
  then show ?case by simp
next
  case (2 search parse toolCall rest s)
  show ?case
  proof (cases "tc_name toolCall = ''webSearch''")
    case False
    then show ?thesis using 2 by simp
  next
    case True
    then show ?thesis using "2.prems" "2.IH"(1)
      by (fastforce split: sum.splits)
  qed
qed

lemma gmi_turn_frame:
  "gmi_turn search env s = (r, s') \<Longrightarrow>
     toolCallCount s \<le> toolCallCount s' \<and>
     gmi_requests s' = gmi_requests s @
        [\<lparr>req_messages = messages s, req_tools = (toolCallCount s < gmi_maxToolCalls)\<rparr>] \<and>
     gmi_iteration s' = gmi_iteration s"
  by (auto simp: gmi_turn_def Let_def
      split: sum.splits if_splits prod.splits option.splits
      dest!: runToolCalls_frame)

lemma gmi_loop_frame:
  "gmi_loop search env s = (r, s') \<Longrightarrow>
     toolCallCount s \<le> toolCallCount s' \<and>
     (gmi_iteration s \<le> gmi_maxIterations \<longrightarrow> gmi_iteration s' \<le> gmi_maxIterations) \<and>
     gmi_iteration s \<le> gmi_iteration s' \<and>
     (\<exists>new. gmi_requests s' = gmi_requests s @ new \<and>
        (gmi_maxToolCalls \<le> toolCallCount s \<longrightarrow> (\<forall>q \<in> set new. \<not> req_tools q)))"
proof (induction search env s arbitrary: r s' rule: gmi_loop.induct)
  case (1 search env s)
  show ?case
  proof (cases "gmi_iteration s < gmi_maxIterations")
    case False
    then show ?thesis using "1.prems" by (simp add: gmi_loop.simps)
  next
    case True
    obtain x t where turn: "gmi_turn search env (s\<lparr>gmi_iteration := gmi_iteration s + 1\<rparr>) = (x, t)"
      by (cases "gmi_turn search env (s\<lparr>gmi_iteration := gmi_iteration s + 1\<rparr>)")
    have fr: "toolCallCount s \<le> toolCallCount t"
      "gmi_requests t = gmi_requests s @
         [\<lparr>req_messages = messages s, req_tools = (toolCallCount s < gmi_maxToolCalls)\<rparr>]"
      "gmi_iteration t = gmi_iteration s + 1"
      using gmi_turn_frame [OF turn] by simp_all
    show ?thesis
    proof (cases x)
      case Continue
      then have loop: "gmi_loop search env t = (r, s')"
        using "1.prems" True turn by (simp add: gmi_loop.simps)
      from "1.IH" [OF True turn [symmetric] Continue loop]
      show ?thesis using fr True by auto
    next
      case (Return v)
      then have "s' = t" using "1.prems" True turn by (simp add: gmi_loop.simps)
      then show ?thesis using fr True by auto
    next
      case (Throw e)
      then have "s' = t" using "1.prems" True turn by (simp add: gmi_loop.simps)
      then show ?thesis using fr True by auto
    qed
  qed
qed

lemma cerebras_loop_continue:
  "iteration s < mi \<Longrightarrow> cerebras_turn env m (s\<lparr>iteration := iteration s + 1\<rparr>) = (Continue, s') \<Longrightarrow>
   cerebras_loop env mi m s = cerebras_loop env mi m s'"
  by (simp add: cerebras_loop.simps)

lemma cerebras_loop_throw:
  "iteration s < mi \<Longrightarrow> cerebras_turn env m (s\<lparr>iteration := iteration s + 1\<rparr>) = (Throw e, s') \<Longrightarrow>
   cerebras_loop env mi m s = (Thrown e, s')"
  by (simp add: cerebras_loop.simps)

lemma cerebras_loop_exhausted:
  "\<not> iteration s < mi \<Longrightarrow> cerebras_loop env mi m s = (Thrown ReachedMaxIterations, s)"
  by (simp add: cerebras_loop.simps)


lemma gmi_loop_throw:
  "gmi_iteration g < gmi_maxIterations \<Longrightarrow>
   gmi_turn search env (g\<lparr>gmi_iteration := gmi_iteration g + 1\<rparr>) = (Throw e, g') \<Longrightarrow>
   gmi_loop search env g = (Thrown e, g')"
  by (simp add: gmi_loop.simps)


lemma cerebras_turn_tool_calls:
  assumes "create env (sentRequest m s) = Inr a" and "cmp_tool_calls a = Some calls"
    and "calls \<noteq> []" and "toolCallsCount s < m"
  shows "cerebras_turn env m s =
           (case executeToolCalls env m calls (afterReply m a s) of
              (Some e, s5) \<Rightarrow> (Throw e, s5)
            | (None, s5) \<Rightarrow> (Continue, s5))"
  using assms
  by (simp add: cerebras_turn_def sentRequest_def afterReply_def hasToolCalls_def Let_def)

lemma gmi_turn_tool_calls:
  assumes "fetchChat env \<lparr>req_messages = messages s, req_tools = (toolCallCount s < gmi_maxToolCalls)\<rparr> = Inr chunks"
    and "cleanToolCalls (sm_tool_calls (readStream (decodeEvent env) [] emptyMessage chunks)) = Some calls"
    and "calls \<noteq> []"
  shows "gmi_turn search env s =
           (case runToolCalls search (gmi_parseArgs env) calls (gmi_afterReply env chunks s) of
              (Some e, s4) \<Rightarrow> (Throw e, s4)
            | (None, s4) \<Rightarrow> (Continue, s4))"
  using assms by (simp add: gmi_turn_def gmi_afterReply_def hasToolCalls_def Let_def)


text \<open>
  A pass of the tool loop over a turn: invocations of other names do not matter, a pass
  over a list that ran its first part without a throw goes on with the rest, and at the
  cap the pass does nothing. The first request a run sends is the request of its first
  turn.
\<close>

lemma executeToolCalls_filter:
  "executeToolCalls env m calls s = executeToolCalls env m (filter isWebSearch calls) s"
proof (induction env m calls s rule: executeToolCalls.induct)
  case (1 env m s)
  then show ?case by simp
next
  case (2 env m toolCall rest s)
  show ?case
  proof (cases "tc_name toolCall = ''webSearch''")
    case False
    then show ?thesis using "2.IH"(2) by (simp add: isWebSearch_def)
  next
    case True
    then show ?thesis using "2.IH"(1)
      by (simp add: isWebSearch_def Let_def split: sum.splits)
  qed
qed

lemma executeToolCalls_append:
  "executeToolCalls env m pre s = (None, s1) \<Longrightarrow> toolCallsCount s1 < m \<Longrightarrow>
   executeToolCalls env m (pre @ ys) s = executeToolCalls env m ys s1"
proof (induction env m pre s rule: executeToolCalls.induct)
  case (1 env m s)
  then show ?case by simp
next
  case (2 env m toolCall rest s)
  show ?case
  proof (cases "tc_name toolCall = ''webSearch''")
    case False
    then show ?thesis using 2 by simp
  next
    case True
    then show ?thesis using "2.prems" "2.IH"(1)
      by (auto simp: Let_def split: if_splits sum.splits)
  qed
qed

lemma runToolCalls_append:
  "runToolCalls search parse pre g = (None, g1) \<Longrightarrow>
   runToolCalls search parse (pre @ ys) g = runToolCalls search parse ys g1"
proof (induction search parse pre g rule: runToolCalls.induct)
  case (1 search parse s)
  then show ?case by simp
next
  case (2 search parse toolCall rest s)
  show ?case
  proof (cases "tc_name toolCall = ''webSearch''")
    case False
    then show ?thesis using 2 by simp
  next
    case True
    then show ?thesis using "2.prems" "2.IH"(1)
      by (auto split: sum.splits)
  qed
qed

lemma executeToolCalls_at_cap:
  "m \<le> toolCallsCount s \<Longrightarrow> executeToolCalls env m xs s = (None, s)"
  by (induction xs) auto

lemma cerebras_loop_first_request:
  assumes "iteration s < mi"
  shows "take 1 (drop (length (requests s)) (requests (snd (cerebras_loop env mi m s)))) =
           [sentRequest m (s\<lparr>iteration := iteration s + 1\<rparr>)]"
proof -
  let ?s1 = "s\<lparr>iteration := iteration s + 1\<rparr>"
  obtain x t where turn: "cerebras_turn env m ?s1 = (x, t)"
    by (cases "cerebras_turn env m ?s1")
  have rt: "requests t = requests s @ [sentRequest m ?s1]"
    using cerebras_turn_frame [OF turn] by simp
  obtain r s' where run: "cerebras_loop env mi m s = (r, s')"
    by (cases "cerebras_loop env mi m s")
  have "\<exists>new. requests s' = requests t @ new"
  proof (cases x)
    case Continue
    then have "cerebras_loop env mi m t = (r, s')"
      using run turn assms by (simp add: cerebras_loop.simps)
    then show ?thesis using cerebras_loop_frame by blast
  next
    case (Return v)
    then have "s' = t" using run turn assms by (simp add: cerebras_loop.simps)
    then show ?thesis by simp
  next
    case (Throw e)
    then have "s' = t" using run turn assms by (simp add: cerebras_loop.simps)
    then show ?thesis by simp
  qed
  then show ?thesis using rt run by auto
qed

lemma cerebras_loop_requests_grow:
  "\<exists>new. requests (snd (cerebras_loop env mi m s)) = requests s @ new"
proof -
  obtain r s' where run: "cerebras_loop env mi m s = (r, s')"
    by (cases "cerebras_loop env mi m s")
  then show ?thesis using cerebras_loop_frame [OF run] by auto
qed

text \<open>
  C1 fails in the streaming loops. \<open>chatWithWebSearchStreaming\<close> adds the number of
  requested invocations to the counter and runs them all, without a check against the
  cap: on a first reply with four \<open>webSearch\<close> invocations the counter becomes 4 with the cap
  at 3, four searches are answered, and the function returns \<open>searchesPerformed = 4\<close>.
\<close>

theorem streaming_counter_exceeds_cap:
  "gmi_maxToolCalls = 3 \<and>
   toolCallCount (snd (chatWithWebSearchStreaming True sample_gmi_env ''q'')) = 4 \<and>
   toolResultIds (messages (snd (chatWithWebSearchStreaming True sample_gmi_env ''q''))) =
     [''call_0'', ''call_1'', ''call_2'', ''call_3''] \<and>
   fst (chatWithWebSearchStreaming True sample_gmi_env ''q'') =
     Returned (Some \<lparr>response = ''Hello'', searchesPerformed = 4\<rparr>)"
  by code_simp

text \<open>
  C3. Once the tool-call counter has reached the cap (it equals the cap, or in the
  streaming loops exceeds it), no request that the loop sends from then on carries the
  tool schema. \<open>s\<close> and \<open>g\<close> are any states of the two kinds of loop at the start of an
  iteration; the requests sent from there on are those the run appends to the log.
\<close>

theorem no_tools_once_limit_reached:
  "(maxToolCalls \<le> toolCallsCount s \<longrightarrow>
      (\<forall>q \<in> set (drop (length (requests s))
                    (requests (snd (cerebras_loop env maxIterations maxToolCalls s)))).
         \<not> req_tools q)) \<and>
   (gmi_maxToolCalls \<le> toolCallCount g \<longrightarrow>
      (\<forall>q \<in> set (drop (length (gmi_requests g)) (gmi_requests (snd (gmi_loop search genv g)))).
         \<not> req_tools q))"
proof (intro conjI impI)
  assume lim: "maxToolCalls \<le> toolCallsCount s"
  obtain r s' where run: "cerebras_loop env maxIterations maxToolCalls s = (r, s')"
    by (cases "cerebras_loop env maxIterations maxToolCalls s")
  from cerebras_loop_frame [OF run] lim
  obtain new where "requests s' = requests s @ new" "\<forall>q \<in> set new. \<not> req_tools q"
    by auto
  then show "\<forall>q \<in> set (drop (length (requests s))
                    (requests (snd (cerebras_loop env maxIterations maxToolCalls s)))).
         \<not> req_tools q"
    using run by simp
next
  assume lim: "gmi_maxToolCalls \<le> toolCallCount g"
  obtain r g' where run: "gmi_loop search genv g = (r, g')"
    by (cases "gmi_loop search genv g")
  from gmi_loop_frame [OF run] lim
  obtain new where "gmi_requests g' = gmi_requests g @ new" "\<forall>q \<in> set new. \<not> req_tools q"
    by auto
  then show "\<forall>q \<in> set (drop (length (gmi_requests g)) (gmi_requests (snd (gmi_loop search genv g)))).
         \<not> req_tools q"
    using run by simp
qed

theorem no_tools_once_limit_reached_witness:
  "2 \<le> toolCallsCount afterOverAsking \<and>
   list_all (\<lambda>q. \<not> req_tools q)
     (drop (length (requests afterOverAsking))
        (requests (snd (cerebras_loop (sample_env (askingAlways threeCalls)) 4 2 afterOverAsking)))) \<and>
   length (requests (snd (cerebras_loop (sample_env (askingAlways threeCalls)) 4 2 afterOverAsking))) = 4 \<and>
   gmi_maxToolCalls \<le> toolCallCount gmi_afterOverAsking \<and>
   list_all (\<lambda>q. \<not> req_tools q)
     (drop (length (gmi_requests gmi_afterOverAsking))
        (gmi_requests (snd (gmi_loop fixedSearch sample_gmi_env gmi_afterOverAsking)))) \<and>
   length (gmi_requests (snd (gmi_loop fixedSearch sample_gmi_env gmi_afterOverAsking))) = 2"
proof -
  have c: "2 \<le> toolCallsCount afterOverAsking"
    by code_simp
  have g: "gmi_maxToolCalls \<le> toolCallCount gmi_afterOverAsking"
    by code_simp
  have lc: "length (requests (snd (cerebras_loop (sample_env (askingAlways threeCalls)) 4 2 afterOverAsking))) = 4"
    by code_simp
  have lg: "length (gmi_requests (snd (gmi_loop fixedSearch sample_gmi_env gmi_afterOverAsking))) = 2"
    by code_simp
  show ?thesis
    using no_tools_once_limit_reached
            [of 2 afterOverAsking "sample_env (askingAlways threeCalls)" 4
                gmi_afterOverAsking fixedSearch sample_gmi_env] c g lc lg
    by (simp add: list_all_iff)
qed

text \<open>
  C4, as the claim states it, fails. In the Cerebras controller with \<open>maxToolCalls = 2\<close> and
  the counter at 0, a turn with three invocations of another name runs none of them, leaves
  the counter at 0, and the next request offers the tools again, with no corrective turn.
  In the streaming loop (cap 3, counter at 0) a turn with four \<open>webSearch\<close> invocations
  runs all four: four tool results, the counter at 4.
\<close>

theorem over_request_counterexample:
  "fst (cerebras_turn (sample_env (askingAlways threeOthers)) 2 firstTurnState) = Continue \<and>
   toolCallsCount (snd (cerebras_turn (sample_env (askingAlways threeOthers)) 2 firstTurnState)) = 0 \<and>
   toolResultIds
     (conversationMessages (snd (cerebras_turn (sample_env (askingAlways threeOthers)) 2 firstTurnState))) = [] \<and>
   sentRequest 2
     ((snd (cerebras_turn (sample_env (askingAlways threeOthers)) 2 firstTurnState))\<lparr>iteration := 2\<rparr>) =
     \<lparr>req_messages = [SystemMsg SearchPolicy, userTurn, AssistantMsg None (Some threeOthers)],
      req_tools = True\<rparr> \<and>
   toolCallCount gmi_afterOverAsking = 4 \<and>
   toolResultIds (messages gmi_afterOverAsking) = [''call_0'', ''call_1'', ''call_2'', ''call_3'']"
  by code_simp

lemma executeToolCalls_prefix:
  "\<forall>tc \<in> set (take (nat (m - toolCallsCount s)) xs). answerable env tc \<Longrightarrow> toolCallsCount s \<le> m \<Longrightarrow>
   fst (executeToolCalls env m xs s) = None \<and>
   toolCallsCount (snd (executeToolCalls env m xs s)) =
     toolCallsCount s + int (min (length xs) (nat (m - toolCallsCount s))) \<and>
   conversationMessages (snd (executeToolCalls env m xs s)) =
     conversationMessages s @ concat (map (toolMessage env) (take (nat (m - toolCallsCount s)) xs)) \<and>
   length (serperCalls (snd (executeToolCalls env m xs s))) =
     length (serperCalls s) + min (length xs) (nat (m - toolCallsCount s)) \<and>
   requests (snd (executeToolCalls env m xs s)) = requests s"
proof (induction xs arbitrary: s)
  case Nil
  then show ?case by simp
next
  case (Cons tc rest)
  show ?case
  proof (cases "toolCallsCount s \<ge> m")
    case True
    then show ?thesis using executeToolCalls_at_cap [of m s env "tc # rest"] by simp
  next
    case False
    then obtain k where k: "nat (m - toolCallsCount s) = Suc k"
      by (cases "nat (m - toolCallsCount s)") auto
    have ans: "answerable env tc" and all: "\<forall>c \<in> set (take k rest). answerable env c"
      using Cons.prems(1) k by simp_all
    have name: "tc_name tc = ''webSearch''"
      using ans by (simp add: answerable_def)
    obtain args r where parse: "parseArgs env (tc_arguments tc) = Inr args"
      and search: "executeWebSearch_cerebras (fetchSerper env) (arg_query args)
                     (Some (orDefault (arg_numResults args) 10)) = Inr r"
      using ans by (auto simp: answerable_def toolResult_def split: sum.splits)
    let ?s' = "s\<lparr>toolCallsCount := toolCallsCount s + 1,
                 serperCalls := serperCalls s @ [(arg_query args, orDefault (arg_numResults args) 10)],
                 searchQueries := searchQueries s @ [arg_query args],
                 allSources := allSources s @ map toSource (res_organic r),
                 conversationMessages := conversationMessages s @ [ToolMsg (tc_id tc) r]\<rparr>"
    have step: "executeToolCalls env m (tc # rest) s = executeToolCalls env m rest ?s'"
      using name False parse search by (simp add: Let_def)
    have msg: "toolMessage env tc = [ToolMsg (tc_id tc) r]"
      using parse search by (simp add: toolMessage_def toolResult_def)
    have le: "toolCallsCount ?s' \<le> m" using False by simp
    have k': "nat (m - toolCallsCount ?s') = k" using k by simp
    have all': "\<forall>c \<in> set (take (nat (m - toolCallsCount ?s')) rest). answerable env c"
      using all k' by simp
    show ?thesis
      using Cons.IH [OF all' le] step msg k k' by simp
  qed
qed

lemma toolResultIds_append: "toolResultIds (xs @ ys) = toolResultIds xs @ toolResultIds ys"
  by (induction xs rule: toolResultIds.induct) auto

lemma toolResultIds_toolMessages:
  "\<forall>tc \<in> set calls. answerable env tc \<Longrightarrow>
   toolResultIds (concat (map (toolMessage env) calls)) = map tc_id calls"
  by (induction calls)
     (auto simp: toolResultIds_append toolMessage_def answerable_def split: sum.splits)

text \<open>
  C4, amended. In the Cerebras controller, let the counter be under the cap, and let the
  assistant's turn carry at least as many \<open>webSearch\<close> invocations as the remaining budget
  \<open>k = maxToolCalls - toolCallsCount\<close>, the first \<open>k\<close> of them answerable (their arguments
  parse and their searches succeed). Invocations of other names may stand anywhere in the
  turn, and the \<open>webSearch\<close> invocations after the first \<open>k\<close> may be anything, also
  unparsable. Then the turn runs these \<open>k\<close> invocations in order and stops at the cap: the
  counter ends at \<open>maxToolCalls\<close>, exactly \<open>k\<close> searches are made, the transcript gains the
  assistant's turn and one tool result for each of the \<open>k\<close> invocations, referring to their
  ids in order, and none for any other invocation; the turn ends with \<open>continue\<close> and the
  loop goes on from the state reached. When an iteration is left, the two requests the
  run sends from here on are the request of this turn and the request of the next
  iteration, which carries the corrective system turn after the transcript and offers no
  tools; when none is left, the run ends with the error of the iteration cap.
\<close>

theorem over_request_runs_remaining_budget:
  assumes under: "toolCallsCount s < m"
    and enough: "nat (m - toolCallsCount s) \<le> length (filter isWebSearch calls)"
    and ok: "\<forall>tc \<in> set (take (nat (m - toolCallsCount s)) (filter isWebSearch calls)). answerable env tc"
    and iter: "0 \<le> iteration s \<and> iteration s < mi"
    and reply: "create env \<lparr>req_messages = conversationMessages s, req_tools = True\<rparr> = Inr a"
    and calls: "cmp_tool_calls a = Some calls"
  shows "let s' = snd (cerebras_turn env m (s\<lparr>iteration := iteration s + 1\<rparr>));
             k = nat (m - toolCallsCount s);
             run = take k (filter isWebSearch calls)
         in fst (cerebras_turn env m (s\<lparr>iteration := iteration s + 1\<rparr>)) = Continue \<and>
            toolCallsCount s' = m \<and>
            length (serperCalls s') = length (serperCalls s) + k \<and>
            conversationMessages s' =
              conversationMessages s @ [AssistantMsg (cmp_content a) (Some calls)] @
              concat (map (toolMessage env) run) \<and>
            toolResultIds (conversationMessages s') =
              toolResultIds (conversationMessages s) @ map tc_id run \<and>
            iteration s' = iteration s + 1 \<and>
            cerebras_loop env mi m s = cerebras_loop env mi m s' \<and>
            (iteration s + 1 < mi \<longrightarrow>
               take 2 (drop (length (requests s)) (requests (snd (cerebras_loop env mi m s)))) =
                 [\<lparr>req_messages = conversationMessages s, req_tools = True\<rparr>,
                  \<lparr>req_messages = conversationMessages s' @ [SystemMsg (AnswerNow m)], req_tools = False\<rparr>]) \<and>
            (\<not> iteration s + 1 < mi \<longrightarrow>
               cerebras_loop env mi m s = (Thrown ReachedMaxIterations, s'))"
proof -
  let ?s1 = "s\<lparr>iteration := iteration s + 1\<rparr>"
  let ?r = "afterReply m a ?s1"
  let ?k = "nat (m - toolCallsCount s)"
  let ?ws = "filter isWebSearch calls"
  let ?run = "take ?k ?ws"
  have sr: "sentRequest m ?s1 = \<lparr>req_messages = conversationMessages s, req_tools = True\<rparr>"
    using under by (simp add: sentRequest_def)
  have kpos: "0 < ?k" using under by simp
  have ne: "calls \<noteq> []" using enough kpos by auto
  have turn: "cerebras_turn env m ?s1 =
           (case executeToolCalls env m calls ?r of
              (Some e, s5) \<Rightarrow> (Throw e, s5)
            | (None, s5) \<Rightarrow> (Continue, s5))"
    using reply calls ne under sr by (intro cerebras_turn_tool_calls) simp_all
  have r: "toolCallsCount ?r = toolCallsCount s" "serperCalls ?r = serperCalls s"
    "conversationMessages ?r = conversationMessages s @ [AssistantMsg (cmp_content a) (Some calls)]"
    "iteration ?r = iteration s + 1" "requests ?r = requests s @ [\<lparr>req_messages = conversationMessages s, req_tools = True\<rparr>]"
    using under calls by (simp_all add: afterReply_def sentRequest_def)
  have le: "toolCallsCount ?r \<le> m" using under r by simp
  have ok': "\<forall>tc \<in> set (take (nat (m - toolCallsCount ?r)) ?ws). answerable env tc"
    using ok r by simp
  obtain x s' where ex: "executeToolCalls env m ?ws ?r = (x, s')"
    by (cases "executeToolCalls env m ?ws ?r")
  have ex': "executeToolCalls env m calls ?r = (x, s')"
    using ex executeToolCalls_filter [of env m calls ?r] by simp
  have mn: "min (length ?ws) ?k = ?k" using enough by simp
  from executeToolCalls_prefix [OF ok' le] ex r mn
  have x: "x = None" and c: "toolCallsCount s' = m"
    and q: "length (serperCalls s') = length (serperCalls s) + ?k"
    and ms: "conversationMessages s' =
              conversationMessages s @ [AssistantMsg (cmp_content a) (Some calls)] @
              concat (map (toolMessage env) ?run)"
    and rq: "requests s' = requests s @ [\<lparr>req_messages = conversationMessages s, req_tools = True\<rparr>]"
    using under by simp_all
  have t: "cerebras_turn env m ?s1 = (Continue, s')"
    using turn ex' x by simp
  have i: "iteration s' = iteration s + 1"
    using cerebras_turn_frame [OF t] by simp
  have ids: "toolResultIds (conversationMessages s') =
              toolResultIds (conversationMessages s) @ map tc_id ?run"
    using ms toolResultIds_toolMessages [OF ok] by (simp add: toolResultIds_append)
  have lp: "cerebras_loop env mi m s = cerebras_loop env mi m s'"
    using t iter by (intro cerebras_loop_continue) simp_all
  have nxt: "take 2 (drop (length (requests s)) (requests (snd (cerebras_loop env mi m s)))) =
                 [\<lparr>req_messages = conversationMessages s, req_tools = True\<rparr>,
                  \<lparr>req_messages = conversationMessages s' @ [SystemMsg (AnswerNow m)], req_tools = False\<rparr>]"
    if more: "iteration s + 1 < mi"
  proof -
    have lt: "iteration s' < mi" using more i by simp
    have sr2: "sentRequest m (s'\<lparr>iteration := iteration s' + 1\<rparr>) =
                 \<lparr>req_messages = conversationMessages s' @ [SystemMsg (AnswerNow m)], req_tools = False\<rparr>"
      using c i iter by (simp add: sentRequest_def)
    obtain new where new: "requests (snd (cerebras_loop env mi m s')) = requests s' @ new"
      using cerebras_loop_requests_grow by blast
    have "take 1 new = [sentRequest m (s'\<lparr>iteration := iteration s' + 1\<rparr>)]"
      using cerebras_loop_first_request [OF lt, of env m] new by simp
    then obtain rest where "new = sentRequest m (s'\<lparr>iteration := iteration s' + 1\<rparr>) # rest"
      by (cases new) auto
    then show ?thesis using new rq sr2 lp by simp
  qed
  have last: "cerebras_loop env mi m s = (Thrown ReachedMaxIterations, s')"
    if none: "\<not> iteration s + 1 < mi"
  proof -
    have "\<not> iteration s' < mi" using none i by simp
    then show ?thesis using lp cerebras_loop_exhausted [of s' mi env m] by simp
  qed
  show ?thesis
    using t lp c q ms ids i nxt last by (simp add: Let_def)
qed

theorem over_request_runs_remaining_budget_witness:
  "fst (cerebras_turn (sample_env (askingAlways overMixed)) 2 firstTurnState) = Continue \<and>
   toolCallsCount (snd (cerebras_turn (sample_env (askingAlways overMixed)) 2 firstTurnState)) = 2 \<and>
   toolResultIds (conversationMessages (snd (cerebras_turn (sample_env (askingAlways overMixed)) 2 firstTurnState))) =
     [''call_0'', ''call_1''] \<and>
   take 2 (requests (snd (cerebras_loop (sample_env (askingAlways overMixed)) 4 2 (initialState [userTurn])))) =
     [\<lparr>req_messages = [SystemMsg SearchPolicy, userTurn], req_tools = True\<rparr>,
      \<lparr>req_messages =
         conversationMessages (snd (cerebras_turn (sample_env (askingAlways overMixed)) 2 firstTurnState)) @
         [SystemMsg (AnswerNow 2)],
       req_tools = False\<rparr>]"
proof -
  have under: "toolCallsCount (initialState [userTurn]) < 2"
    by code_simp
  have enough: "nat (2 - toolCallsCount (initialState [userTurn])) \<le> length (filter isWebSearch overMixed)"
    by code_simp
  have ok: "\<forall>tc \<in> set (take (nat (2 - toolCallsCount (initialState [userTurn]))) (filter isWebSearch overMixed)).
              answerable (sample_env (askingAlways overMixed)) tc"
    by code_simp
  have iter: "0 \<le> iteration (initialState [userTurn]) \<and> iteration (initialState [userTurn]) < 4"
    by code_simp
  have reply: "create (sample_env (askingAlways overMixed))
                 \<lparr>req_messages = conversationMessages (initialState [userTurn]), req_tools = True\<rparr> =
               Inr overMixedReply"
    by code_simp
  have calls: "cmp_tool_calls overMixedReply = Some overMixed"
    by code_simp
  have st: "(initialState [userTurn])\<lparr>iteration := iteration (initialState [userTurn]) + 1\<rparr> = firstTurnState"
    by code_simp
  have k: "nat (2 - toolCallsCount (initialState [userTurn])) = 2"
    by code_simp
  have t: "toolResultIds (conversationMessages (initialState [userTurn])) = []"
    by code_simp
  have ids: "map tc_id (take 2 (filter isWebSearch overMixed)) = [''call_0'', ''call_1'']"
    by code_simp
  have more: "iteration (initialState [userTurn]) + 1 < 4"
    by code_simp
  have rq: "length (requests (initialState [userTurn])) = 0"
    by code_simp
  have cm: "conversationMessages (initialState [userTurn]) = [SystemMsg SearchPolicy, userTurn]"
    by code_simp
  note th = over_request_runs_remaining_budget [OF under enough ok iter reply calls, unfolded Let_def st k]
  have p1: "fst (cerebras_turn (sample_env (askingAlways overMixed)) 2 firstTurnState) = Continue"
    using th by blast
  have p2: "toolCallsCount (snd (cerebras_turn (sample_env (askingAlways overMixed)) 2 firstTurnState)) = 2"
    using th by blast
  have p3: "toolResultIds (conversationMessages (snd (cerebras_turn (sample_env (askingAlways overMixed)) 2 firstTurnState))) =
     toolResultIds (conversationMessages (initialState [userTurn])) @ map tc_id (take 2 (filter isWebSearch overMixed))"
    using th by blast
  have p4: "take 2 (drop (length (requests (initialState [userTurn])))
              (requests (snd (cerebras_loop (sample_env (askingAlways overMixed)) 4 2 (initialState [userTurn]))))) =
     [\<lparr>req_messages = conversationMessages (initialState [userTurn]), req_tools = True\<rparr>,
      \<lparr>req_messages =
         conversationMessages (snd (cerebras_turn (sample_env (askingAlways overMixed)) 2 firstTurnState)) @
         [SystemMsg (AnswerNow 2)],
       req_tools = False\<rparr>]"
    using th more by blast
  show ?thesis
    using p1 p2 p3 p4 t ids rq cm by simp
qed

text \<open>
  C5, as the claim states it, fails: the Cerebras controller is given one \<open>webSearch\<close>
  invocation whose argument string is \<open>not json\<close>. The function throws the syntax error in
  the first iteration; the transcript ends with the assistant's turn, and no tool result
  has been appended.
\<close>

theorem unparsable_arguments_counterexample:
  "fst (chatWithCerebrasWebSearch (sample_env (askingOnce [badCall ''0''])) [userTurn] None) =
     Thrown JsonSyntaxError \<and>
   conversationMessages
     (snd (chatWithCerebrasWebSearch (sample_env (askingOnce [badCall ''0''])) [userTurn] None)) =
     [SystemMsg SearchPolicy, userTurn, AssistantMsg None (Some [badCall ''0''])] \<and>
   iteration
     (snd (chatWithCerebrasWebSearch (sample_env (askingOnce [badCall ''0''])) [userTurn] None)) = 1"
  by code_simp

text \<open>
  C5, amended. No loop catches a failure of \<open>JSON.parse\<close> on an argument string. Let a
  turn carry the invocations \<open>pre\<close>, then a \<open>webSearch\<close> invocation \<open>tc\<close> whose argument
  string does not parse, then \<open>rest\<close>, and let the tool loop run \<open>pre\<close> without a throw
  into a state \<open>s1\<close> (in the Cerebras controller with the counter still under the cap, so
  that \<open>tc\<close> is reached). Then the tool loop throws the parse error at \<open>tc\<close> in the state
  \<open>s1\<close> (the Cerebras controller has counted \<open>tc\<close> before parsing): no tool result is
  appended for \<open>tc\<close> and nothing of \<open>rest\<close> is run. The whole run ends there with that
  error, in the iteration of the turn: the loop does not come to another iteration. This
  holds in the Cerebras controller and in the streaming loops, with any search function.
\<close>

theorem unparsable_arguments_end_the_run:
  assumes name: "tc_name tc = ''webSearch''"
  shows
   "(parseArgs env (tc_arguments tc) = Inl e \<and>
     executeToolCalls env m pre s = (None, s1) \<and> toolCallsCount s1 < m \<longrightarrow>
       executeToolCalls env m (pre @ tc # rest) s =
         (Some e, s1\<lparr>toolCallsCount := toolCallsCount s1 + 1\<rparr>)) \<and>
    (parseArgs env (tc_arguments tc) = Inl e \<and> iteration s < mi \<and>
     create env (sentRequest m (s\<lparr>iteration := iteration s + 1\<rparr>)) = Inr a \<and>
     cmp_tool_calls a = Some (pre @ tc # rest) \<and>
     executeToolCalls env m pre (afterReply m a (s\<lparr>iteration := iteration s + 1\<rparr>)) = (None, s1) \<and>
     toolCallsCount s1 < m \<longrightarrow>
       cerebras_loop env mi m s = (Thrown e, s1\<lparr>toolCallsCount := toolCallsCount s1 + 1\<rparr>)) \<and>
    (parse (tc_arguments tc) = Inl e \<and> runToolCalls search parse pre g = (None, g1) \<longrightarrow>
       runToolCalls search parse (pre @ tc # rest) g = (Some e, g1)) \<and>
    (gmi_parseArgs genv (tc_arguments tc) = Inl e \<and> gmi_iteration g < gmi_maxIterations \<and>
     fetchChat genv \<lparr>req_messages = messages g, req_tools = (toolCallCount g < gmi_maxToolCalls)\<rparr> =
       Inr chunks \<and>
     cleanToolCalls (sm_tool_calls (readStream (decodeEvent genv) [] emptyMessage chunks)) =
       Some (pre @ tc # rest) \<and>
     runToolCalls search (gmi_parseArgs genv) pre
       (gmi_afterReply genv chunks (g\<lparr>gmi_iteration := gmi_iteration g + 1\<rparr>)) = (None, g1) \<longrightarrow>
       gmi_loop search genv g = (Thrown e, g1))"
proof (intro conjI impI)
  assume h: "parseArgs env (tc_arguments tc) = Inl e \<and>
     executeToolCalls env m pre s = (None, s1) \<and> toolCallsCount s1 < m"
  then have "executeToolCalls env m (pre @ tc # rest) s = executeToolCalls env m (tc # rest) s1"
    by (intro executeToolCalls_append) auto
  then show "executeToolCalls env m (pre @ tc # rest) s =
         (Some e, s1\<lparr>toolCallsCount := toolCallsCount s1 + 1\<rparr>)"
    using h name by simp
next
  assume h: "parseArgs env (tc_arguments tc) = Inl e \<and> iteration s < mi \<and>
     create env (sentRequest m (s\<lparr>iteration := iteration s + 1\<rparr>)) = Inr a \<and>
     cmp_tool_calls a = Some (pre @ tc # rest) \<and>
     executeToolCalls env m pre (afterReply m a (s\<lparr>iteration := iteration s + 1\<rparr>)) = (None, s1) \<and>
     toolCallsCount s1 < m"
  let ?s1 = "s\<lparr>iteration := iteration s + 1\<rparr>"
  have pre: "executeToolCalls env m pre (afterReply m a ?s1) = (None, s1)" using h by simp
  have "toolCallsCount (afterReply m a ?s1) \<le> toolCallsCount s1"
    using executeToolCalls_frame [OF pre] by simp
  then have under: "toolCallsCount ?s1 < m"
    using h by (simp add: afterReply_def)
  have "cerebras_turn env m ?s1 =
           (case executeToolCalls env m (pre @ tc # rest) (afterReply m a ?s1) of
              (Some e, s5) \<Rightarrow> (Throw e, s5)
            | (None, s5) \<Rightarrow> (Continue, s5))"
    using h under by (intro cerebras_turn_tool_calls) auto
  moreover have "executeToolCalls env m (pre @ tc # rest) (afterReply m a ?s1) =
      executeToolCalls env m (tc # rest) s1"
    using pre h by (intro executeToolCalls_append) auto
  moreover have "executeToolCalls env m (tc # rest) s1 =
      (Some e, s1\<lparr>toolCallsCount := toolCallsCount s1 + 1\<rparr>)"
    using h name by simp
  ultimately have "cerebras_turn env m ?s1 = (Throw e, s1\<lparr>toolCallsCount := toolCallsCount s1 + 1\<rparr>)"
    by simp
  then show "cerebras_loop env mi m s = (Thrown e, s1\<lparr>toolCallsCount := toolCallsCount s1 + 1\<rparr>)"
    using h by (intro cerebras_loop_throw) auto
next
  assume h: "parse (tc_arguments tc) = Inl e \<and> runToolCalls search parse pre g = (None, g1)"
  then have "runToolCalls search parse (pre @ tc # rest) g = runToolCalls search parse (tc # rest) g1"
    by (intro runToolCalls_append) auto
  then show "runToolCalls search parse (pre @ tc # rest) g = (Some e, g1)"
    using h name by simp
next
  assume h: "gmi_parseArgs genv (tc_arguments tc) = Inl e \<and> gmi_iteration g < gmi_maxIterations \<and>
     fetchChat genv \<lparr>req_messages = messages g, req_tools = (toolCallCount g < gmi_maxToolCalls)\<rparr> =
       Inr chunks \<and>
     cleanToolCalls (sm_tool_calls (readStream (decodeEvent genv) [] emptyMessage chunks)) =
       Some (pre @ tc # rest) \<and>
     runToolCalls search (gmi_parseArgs genv) pre
       (gmi_afterReply genv chunks (g\<lparr>gmi_iteration := gmi_iteration g + 1\<rparr>)) = (None, g1)"
  let ?g1 = "g\<lparr>gmi_iteration := gmi_iteration g + 1\<rparr>"
  have "gmi_turn search genv ?g1 =
           (case runToolCalls search (gmi_parseArgs genv) (pre @ tc # rest) (gmi_afterReply genv chunks ?g1) of
              (Some e, s4) \<Rightarrow> (Throw e, s4)
            | (None, s4) \<Rightarrow> (Continue, s4))"
    using h by (intro gmi_turn_tool_calls) auto
  moreover have "runToolCalls search (gmi_parseArgs genv) (pre @ tc # rest) (gmi_afterReply genv chunks ?g1) =
      runToolCalls search (gmi_parseArgs genv) (tc # rest) g1"
    using h by (intro runToolCalls_append) auto
  moreover have "runToolCalls search (gmi_parseArgs genv) (tc # rest) g1 = (Some e, g1)"
    using h name by simp
  ultimately have "gmi_turn search genv ?g1 = (Throw e, g1)"
    by simp
  then show "gmi_loop search genv g = (Thrown e, g1)"
    using h by (intro gmi_loop_throw) auto
qed

theorem unparsable_arguments_end_the_run_witness:
  "cerebras_loop (sample_env (askingOnce mixedCalls)) 4 2 (initialState [userTurn]) =
     (Thrown JsonSyntaxError, mixedBefore\<lparr>toolCallsCount := toolCallsCount mixedBefore + 1\<rparr>) \<and>
   toolResultIds (conversationMessages mixedBefore) = [''call_0''] \<and>
   serperCalls mixedBefore = [(Some ''a'', 10)] \<and>
   gmi_loop fixedSearch mixed_gmi_env (gmi_initialState ''q'') = (Thrown JsonSyntaxError, gmi_mixedBefore) \<and>
   toolResultIds (messages gmi_mixedBefore) = [''call_0'']"
proof -
  have name: "tc_name (badCall ''2'') = ''webSearch''"
    by (simp add: badCall_def)
  have name1: "tc_name (badCall ''1'') = ''webSearch''"
    by (simp add: badCall_def)
  have h2: "parseArgs (sample_env (askingOnce mixedCalls)) (tc_arguments (badCall ''2'')) =
              Inl JsonSyntaxError \<and>
            iteration (initialState [userTurn]) < 4 \<and>
            create (sample_env (askingOnce mixedCalls))
              (sentRequest 2 ((initialState [userTurn])\<lparr>iteration := iteration (initialState [userTurn]) + 1\<rparr>)) =
              Inr mixedReply \<and>
            cmp_tool_calls mixedReply =
              Some ([searchCall ''0'' ''a'', otherCall ''1''] @ badCall ''2'' # [searchCall ''3'' ''d'']) \<and>
            executeToolCalls (sample_env (askingOnce mixedCalls)) 2 [searchCall ''0'' ''a'', otherCall ''1'']
              (afterReply 2 mixedReply
                 ((initialState [userTurn])\<lparr>iteration := iteration (initialState [userTurn]) + 1\<rparr>)) =
              (None, mixedBefore) \<and>
            toolCallsCount mixedBefore < 2"
    by code_simp
  have h4: "gmi_parseArgs mixed_gmi_env (tc_arguments (badCall ''1'')) = Inl JsonSyntaxError \<and>
            gmi_iteration (gmi_initialState ''q'') < gmi_maxIterations \<and>
            fetchChat mixed_gmi_env
              \<lparr>req_messages = messages (gmi_initialState ''q''),
                 req_tools = (toolCallCount (gmi_initialState ''q'') < gmi_maxToolCalls)\<rparr> =
              Inr mixedStream \<and>
            cleanToolCalls (sm_tool_calls (readStream (decodeEvent mixed_gmi_env) [] emptyMessage mixedStream)) =
              Some ([searchCall ''0'' ''a''] @ badCall ''1'' # [searchCall ''2'' ''c'']) \<and>
            runToolCalls fixedSearch (gmi_parseArgs mixed_gmi_env) [searchCall ''0'' ''a'']
              (gmi_afterReply mixed_gmi_env mixedStream
                 ((gmi_initialState ''q'')\<lparr>gmi_iteration := gmi_iteration (gmi_initialState ''q'') + 1\<rparr>)) =
              (None, gmi_mixedBefore)"
    by code_simp
  have p2: "cerebras_loop (sample_env (askingOnce mixedCalls)) 4 2 (initialState [userTurn]) =
     (Thrown JsonSyntaxError, mixedBefore\<lparr>toolCallsCount := toolCallsCount mixedBefore + 1\<rparr>)"
    using unparsable_arguments_end_the_run
            [OF name, where env = "sample_env (askingOnce mixedCalls)" and e = JsonSyntaxError
               and s = "initialState [userTurn]" and m = 2 and mi = 4
               and pre = "[searchCall ''0'' ''a'', otherCall ''1'']"
               and rest = "[searchCall ''3'' ''d'']" and a = mixedReply and ?s1.0 = mixedBefore] h2
    by blast
  have p4: "gmi_loop fixedSearch mixed_gmi_env (gmi_initialState ''q'') = (Thrown JsonSyntaxError, gmi_mixedBefore)"
    using unparsable_arguments_end_the_run
            [OF name1, where genv = mixed_gmi_env and e = JsonSyntaxError
               and pre = "[searchCall ''0'' ''a'']" and rest = "[searchCall ''2'' ''c'']"
               and search = fixedSearch and g = "gmi_initialState ''q''" and chunks = mixedStream
               and ?g1.0 = gmi_mixedBefore] h4
    by blast
  have e1: "toolResultIds (conversationMessages mixedBefore) = [''call_0'']"
    by code_simp
  have e2: "serperCalls mixedBefore = [(Some ''a'', 10)]"
    by code_simp
  have e3: "toolResultIds (messages gmi_mixedBefore) = [''call_0'']"
    by code_simp
  show ?thesis
    using p2 p4 e1 e2 e3 by blast
qed





text \<open>
  C9, as the claim states it, fails: the Cerebras controller passes a supplied
  \<open>numResults\<close> of 50 to the search unchanged, and an absent one becomes 10, the upper end
  of the range and not its middle.
\<close>

theorem numResults_counterexample:
  "serperCalls (snd (chatWithCerebrasWebSearch (sample_env (askingOnce [bigCall])) [userTurn] None)) =
     [(Some ''a'', 50)] \<and>
   serperCalls
     (snd (chatWithCerebrasWebSearch (sample_env (askingOnce [searchCall ''0'' ''a''])) [userTurn] None)) =
     [(Some ''a'', 10)]"
  by code_simp

lemma executeToolCalls_serperCalls:
  "executeToolCalls env m calls s = (r, s') \<Longrightarrow>
   \<exists>new. serperCalls s' = serperCalls s @ new \<and>
     (\<forall>c \<in> set new. \<exists>tc \<in> set calls. \<exists>args.
         tc_name tc = ''webSearch'' \<and> parseArgs env (tc_arguments tc) = Inr args \<and>
         c = (arg_query args, case arg_numResults args of None \<Rightarrow> 10 | Some v \<Rightarrow> if v = 0 then 10 else v))"
proof (induction env m calls s arbitrary: r s' rule: executeToolCalls.induct)
  case (1 env m s)
  then show ?case by simp
next
  case (2 env m toolCall rest s)
  show ?case
  proof (cases "tc_name toolCall = ''webSearch''")
    case False
    then have "executeToolCalls env m rest s = (r, s')" using "2.prems" by simp
    from "2.IH"(2) [OF False this] show ?thesis by auto
  next
    case True
    show ?thesis
    proof (cases "toolCallsCount s \<ge> m")
      case True
      then have "serperCalls s' = serperCalls s"
        using \<open>tc_name toolCall = ''webSearch''\<close> "2.prems" by auto
      then show ?thesis by simp
    next
      case under: False
      show ?thesis
      proof (cases "parseArgs env (tc_arguments toolCall)")
        case (Inl e)
        then have "serperCalls s' = serperCalls s"
          using True under "2.prems" by (auto simp: Let_def)
        then show ?thesis by simp
      next
        case (Inr args)
        let ?n = "orDefault (arg_numResults args) 10"
        let ?c = "(arg_query args, ?n)"
        have n: "?n = (case arg_numResults args of None \<Rightarrow> 10 | Some v \<Rightarrow> if v = 0 then 10 else v)"
          by (simp add: orDefault_def)
        show ?thesis
        proof (cases "executeWebSearch_cerebras (fetchSerper env) (arg_query args) (Some ?n)")
          case (Inl e)
          then have "serperCalls s' = serperCalls s @ [?c]"
            using True under Inr "2.prems" by (auto simp: Let_def)
          then show ?thesis using True Inr n by auto
        next
          case res: (Inr searchResults)
          let ?s2 = "s\<lparr>toolCallsCount := toolCallsCount s + 1,
                       serperCalls := serperCalls s @ [?c],
                       searchQueries := searchQueries s @ [arg_query args],
                       allSources := allSources s @ map toSource (res_organic searchResults),
                       conversationMessages := conversationMessages s @
                         [ToolMsg (tc_id toolCall) searchResults]\<rparr>"
          have run: "executeToolCalls env m rest ?s2 = (r, s')"
            using True under Inr res "2.prems" by (simp add: Let_def)
          have "\<exists>new. serperCalls s' = serperCalls ?s2 @ new \<and>
             (\<forall>c \<in> set new. \<exists>tc \<in> set rest. \<exists>args.
                 tc_name tc = ''webSearch'' \<and> parseArgs env (tc_arguments tc) = Inr args \<and>
                 c = (arg_query args, case arg_numResults args of None \<Rightarrow> 10 | Some v \<Rightarrow> if v = 0 then 10 else v))"
            using "2.IH"(1) [OF True under refl Inr refl refl res] run by simp
          then obtain new where new: "serperCalls s' = serperCalls s @ ?c # new"
            and all: "\<forall>c \<in> set new. \<exists>tc \<in> set rest. \<exists>args.
                 tc_name tc = ''webSearch'' \<and> parseArgs env (tc_arguments tc) = Inr args \<and>
                 c = (arg_query args, case arg_numResults args of None \<Rightarrow> 10 | Some v \<Rightarrow> if v = 0 then 10 else v)"
            by auto
          have "\<forall>c \<in> set (?c # new). \<exists>tc \<in> set (toolCall # rest). \<exists>args.
                 tc_name tc = ''webSearch'' \<and> parseArgs env (tc_arguments tc) = Inr args \<and>
                 c = (arg_query args, case arg_numResults args of None \<Rightarrow> 10 | Some v \<Rightarrow> if v = 0 then 10 else v)"
            using all True Inr n by auto
          then show ?thesis using new by blast
        qed
      qed
    qed
  qed
qed

lemma serperCalls_grow:
  "\<exists>new. serperCalls (snd (executeToolCalls env m calls s)) = serperCalls s @ new"
proof -
  obtain r s' where "executeToolCalls env m calls s = (r, s')"
    by (cases "executeToolCalls env m calls s")
  then show ?thesis using executeToolCalls_serperCalls by fastforce
qed

lemma executeToolCalls_reached_call:
  assumes name: "tc_name tc = ''webSearch''" and parse: "parseArgs env (tc_arguments tc) = Inr args"
    and pre: "executeToolCalls env m pre s = (None, s1)" and under: "toolCallsCount s1 < m"
  shows "take (Suc (length (serperCalls s1))) (serperCalls (snd (executeToolCalls env m (pre @ tc # rest) s))) =
           serperCalls s1 @
             [(arg_query args, case arg_numResults args of None \<Rightarrow> 10 | Some v \<Rightarrow> if v = 0 then 10 else v)]"
proof -
  let ?n = "orDefault (arg_numResults args) 10"
  let ?c = "(arg_query args, ?n)"
  have n: "?n = (case arg_numResults args of None \<Rightarrow> 10 | Some v \<Rightarrow> if v = 0 then 10 else v)"
    by (simp add: orDefault_def)
  have app: "executeToolCalls env m (pre @ tc # rest) s = executeToolCalls env m (tc # rest) s1"
    using pre under by (rule executeToolCalls_append)
  have "\<exists>new. serperCalls (snd (executeToolCalls env m (tc # rest) s1)) = serperCalls s1 @ ?c # new"
  proof (cases "executeWebSearch_cerebras (fetchSerper env) (arg_query args) (Some ?n)")
    case (Inl e)
    then show ?thesis using name parse under by (simp add: Let_def)
  next
    case (Inr searchResults)
    let ?s2 = "s1\<lparr>toolCallsCount := toolCallsCount s1 + 1,
                 serperCalls := serperCalls s1 @ [?c],
                 searchQueries := searchQueries s1 @ [arg_query args],
                 allSources := allSources s1 @ map toSource (res_organic searchResults),
                 conversationMessages := conversationMessages s1 @ [ToolMsg (tc_id tc) searchResults]\<rparr>"
    have "executeToolCalls env m (tc # rest) s1 = executeToolCalls env m rest ?s2"
      using name parse under Inr by (simp add: Let_def)
    then show ?thesis using serperCalls_grow [of env m rest ?s2] by auto
  qed
  then show ?thesis using app n by auto
qed

text \<open>
  C9, amended. No value is clamped. Every search the tool loop of the Cerebras controller
  makes is for a \<open>webSearch\<close> invocation of the turn whose arguments parse, with the query
  of the arguments and the number \<open>args.numResults || 10\<close>: the supplied \<open>numResults\<close> when
  it is present and not zero, and 10 otherwise; and an invocation the loop reaches under
  the cap is searched with exactly that number. An absent number is 10 in the search
  function of the Cerebras controller and 5 in the one of \<open>testGMIStreaming\<close>; the
  search function of \<open>chatWithWebSearchStreaming\<close> has no such parameter and asks for 5.
  \<open>testGMIStreaming\<close> runs its loop with the search for \<open>args.numResults || 5\<close>, and
  \<open>chatWithWebSearchStreaming\<close> with the search for 5. The number reaches the Serper
  request unchanged: a failure of the request is the failure of the search, and a decoded
  response gives the result normalised with that number. The normalised result has at most
  \<open>numResults\<close> entries when that number is not negative (at most 5 for the function
  without the parameter).
\<close>

theorem numResults_is_not_clamped:
  "(\<forall>c \<in> set (drop (length (serperCalls s)) (serperCalls (snd (executeToolCalls env m calls s)))).
      \<exists>tc \<in> set calls. \<exists>args.
        tc_name tc = ''webSearch'' \<and> parseArgs env (tc_arguments tc) = Inr args \<and>
        c = (arg_query args, case arg_numResults args of None \<Rightarrow> 10 | Some v \<Rightarrow> if v = 0 then 10 else v)) \<and>
   (tc_name tc = ''webSearch'' \<and> parseArgs env (tc_arguments tc) = Inr args \<and>
    executeToolCalls env m pre s = (None, s1) \<and> toolCallsCount s1 < m \<longrightarrow>
      take (Suc (length (serperCalls s1))) (serperCalls (snd (executeToolCalls env m (pre @ tc # rest) s))) =
        serperCalls s1 @
          [(arg_query args, case arg_numResults args of None \<Rightarrow> 10 | Some v \<Rightarrow> if v = 0 then 10 else v)]) \<and>
   executeWebSearch_cerebras fetch q None = executeWebSearch_cerebras fetch q (Some 10) \<and>
   executeWebSearch_gmi fetch q None = executeWebSearch_gmi fetch q (Some 5) \<and>
   executeWebSearch_fixed fetch q = executeWebSearch_gmi fetch q (Some 5) \<and>
   testGMIStreaming genv =
     (case gmi_loop (\<lambda>args. executeWebSearch_gmi (gmi_fetchSerper genv) (arg_query args)
                               (Some (case arg_numResults args of
                                        None \<Rightarrow> 5 | Some v \<Rightarrow> if v = 0 then 5 else v)))
             genv (gmi_initialState testQuestion) of
        (Returned r, g) \<Rightarrow> (Returned (), g)
      | (Thrown e, g) \<Rightarrow> (Thrown e, g)) \<and>
   chatWithWebSearchStreaming True genv question =
     (case gmi_loop (\<lambda>args. executeWebSearch_gmi (gmi_fetchSerper genv) (arg_query args) (Some 5))
             genv (gmi_initialState question) of
        (Returned r, g) \<Rightarrow> (Returned (Some r), g)
      | (Thrown e, g) \<Rightarrow> (Thrown e, g)) \<and>
   (fetch q n = Inl e \<longrightarrow>
      executeWebSearch_cerebras fetch q (Some n) = Inl e \<and> executeWebSearch_gmi fetch q (Some n) = Inl e) \<and>
   (fetch q n = Inr resp \<and> resp_json resp = Inr data \<longrightarrow>
      executeWebSearch_gmi fetch q (Some n) = Inr (normalizeResults n data) \<and>
      (resp_ok resp \<longrightarrow> executeWebSearch_cerebras fetch q (Some n) = Inr (normalizeResults n data))) \<and>
   (0 \<le> n \<longrightarrow> length (res_organic (normalizeResults n data)) \<le> nat n) \<and>
   (0 \<le> n \<and> executeWebSearch_cerebras fetch q (Some n) = Inr found \<longrightarrow> length (res_organic found) \<le> nat n) \<and>
   (0 \<le> n \<and> executeWebSearch_gmi fetch q (Some n) = Inr found \<longrightarrow> length (res_organic found) \<le> nat n) \<and>
   (executeWebSearch_fixed fetch q = Inr found \<longrightarrow> length (res_organic found) \<le> 5)"
proof (intro conjI impI)
  obtain r s' where run: "executeToolCalls env m calls s = (r, s')"
    by (cases "executeToolCalls env m calls s")
  from executeToolCalls_serperCalls [OF run]
  obtain new where new: "serperCalls s' = serperCalls s @ new"
    and form: "\<forall>c \<in> set new. \<exists>tc \<in> set calls. \<exists>args.
        tc_name tc = ''webSearch'' \<and> parseArgs env (tc_arguments tc) = Inr args \<and>
        c = (arg_query args, case arg_numResults args of None \<Rightarrow> 10 | Some v \<Rightarrow> if v = 0 then 10 else v)"
    by blast
  have "drop (length (serperCalls s)) (serperCalls (snd (executeToolCalls env m calls s))) = new"
    using run new by simp
  then show "\<forall>c \<in> set (drop (length (serperCalls s)) (serperCalls (snd (executeToolCalls env m calls s)))).
      \<exists>tc \<in> set calls. \<exists>args.
        tc_name tc = ''webSearch'' \<and> parseArgs env (tc_arguments tc) = Inr args \<and>
        c = (arg_query args, case arg_numResults args of None \<Rightarrow> 10 | Some v \<Rightarrow> if v = 0 then 10 else v)"
    using form by simp
next
  assume "tc_name tc = ''webSearch'' \<and> parseArgs env (tc_arguments tc) = Inr args \<and>
    executeToolCalls env m pre s = (None, s1) \<and> toolCallsCount s1 < m"
  then show "take (Suc (length (serperCalls s1))) (serperCalls (snd (executeToolCalls env m (pre @ tc # rest) s))) =
        serperCalls s1 @
          [(arg_query args, case arg_numResults args of None \<Rightarrow> 10 | Some v \<Rightarrow> if v = 0 then 10 else v)]"
    by (intro executeToolCalls_reached_call) auto
next
  show "executeWebSearch_cerebras fetch q None = executeWebSearch_cerebras fetch q (Some 10)"
    by (simp add: executeWebSearch_cerebras_def)
next
  show "executeWebSearch_gmi fetch q None = executeWebSearch_gmi fetch q (Some 5)"
    by (simp add: executeWebSearch_gmi_def)
next
  show "executeWebSearch_fixed fetch q = executeWebSearch_gmi fetch q (Some 5)"
    by (simp add: executeWebSearch_gmi_def executeWebSearch_fixed_def)
next
  show "testGMIStreaming genv =
     (case gmi_loop (\<lambda>args. executeWebSearch_gmi (gmi_fetchSerper genv) (arg_query args)
                               (Some (case arg_numResults args of
                                        None \<Rightarrow> 5 | Some v \<Rightarrow> if v = 0 then 5 else v)))
             genv (gmi_initialState testQuestion) of
        (Returned r, g) \<Rightarrow> (Returned (), g)
      | (Thrown e, g) \<Rightarrow> (Thrown e, g))"
    by (simp add: testGMIStreaming_def orDefault_def)
next
  have eq: "(\<lambda>args. executeWebSearch_fixed (gmi_fetchSerper genv) (arg_query args)) =
        (\<lambda>args. executeWebSearch_gmi (gmi_fetchSerper genv) (arg_query args) (Some 5))"
    by (simp add: executeWebSearch_gmi_def executeWebSearch_fixed_def)
  show "chatWithWebSearchStreaming True genv question =
     (case gmi_loop (\<lambda>args. executeWebSearch_gmi (gmi_fetchSerper genv) (arg_query args) (Some 5))
             genv (gmi_initialState question) of
        (Returned r, g) \<Rightarrow> (Returned (Some r), g)
      | (Thrown e, g) \<Rightarrow> (Thrown e, g))"
    unfolding chatWithWebSearchStreaming_def eq by simp
next
  assume "fetch q n = Inl e"
  then show "executeWebSearch_cerebras fetch q (Some n) = Inl e"
    by (simp add: executeWebSearch_cerebras_def)
next
  assume "fetch q n = Inl e"
  then show "executeWebSearch_gmi fetch q (Some n) = Inl e"
    by (simp add: executeWebSearch_gmi_def)
next
  assume "fetch q n = Inr resp \<and> resp_json resp = Inr data"
  then show "executeWebSearch_gmi fetch q (Some n) = Inr (normalizeResults n data)"
    by (simp add: executeWebSearch_gmi_def)
next
  assume "fetch q n = Inr resp \<and> resp_json resp = Inr data" and "resp_ok resp"
  then show "executeWebSearch_cerebras fetch q (Some n) = Inr (normalizeResults n data)"
    by (simp add: executeWebSearch_cerebras_def)
next
  assume "0 \<le> n"
  then show "length (res_organic (normalizeResults n data)) \<le> nat n"
    by (auto simp: normalizeResults_def js_slice0_def split: option.splits)
next
  assume "0 \<le> n \<and> executeWebSearch_cerebras fetch q (Some n) = Inr found"
  then show "length (res_organic found) \<le> nat n"
    by (auto simp: executeWebSearch_cerebras_def normalizeResults_def js_slice0_def Let_def
        split: sum.splits if_splits option.splits)
next
  assume "0 \<le> n \<and> executeWebSearch_gmi fetch q (Some n) = Inr found"
  then show "length (res_organic found) \<le> nat n"
    by (auto simp: executeWebSearch_gmi_def normalizeResults_def js_slice0_def Let_def
        split: sum.splits if_splits option.splits)
next
  assume "executeWebSearch_fixed fetch q = Inr found"
  then show "length (res_organic found) \<le> 5"
    by (auto simp: executeWebSearch_fixed_def normalizeResults_def js_slice0_def
        split: sum.splits if_splits option.splits)
qed

theorem numResults_is_not_clamped_witness:
  "take (Suc (length (serperCalls searchedOnce)))
     (serperCalls (snd (executeToolCalls (sample_env (askingOnce [bigCall])) 5
                          ([searchCall ''0'' ''a''] @ bigCall # []) firstTurnState))) =
     [(Some ''a'', 10), (Some ''a'', 50)] \<and>
   executeWebSearch_fixed sample_serper (Some ''a'') = executeWebSearch_gmi sample_serper (Some ''a'') (Some 5) \<and>
   executeWebSearch_gmi sample_serper (Some ''a'') (Some 2) = Inr (normalizeResults 2 sample_data) \<and>
   executeWebSearch_cerebras sample_serper (Some ''a'') (Some 2) = Inr (normalizeResults 2 sample_data) \<and>
   length (res_organic (normalizeResults 2 sample_data)) \<le> nat 2 \<and>
   res_organic (normalizeResults 2 sample_data) = take 2 sample_hits"
proof -
  have h1: "tc_name bigCall = ''webSearch'' \<and>
            parseArgs (sample_env (askingOnce [bigCall])) (tc_arguments bigCall) =
              Inr \<lparr>arg_query = Some ''a'', arg_numResults = Some 50\<rparr> \<and>
            executeToolCalls (sample_env (askingOnce [bigCall])) 5 [searchCall ''0'' ''a''] firstTurnState =
              (None, searchedOnce) \<and>
            toolCallsCount searchedOnce < 5"
    by code_simp
  have h2: "sample_serper (Some ''a'') 2 = Inr \<lparr>resp_ok = True, resp_json = Inr sample_data\<rparr> \<and>
            resp_json \<lparr>resp_ok = True, resp_json = Inr sample_data\<rparr> = Inr sample_data"
    by code_simp
  have ok: "resp_ok \<lparr>resp_ok = True, resp_json = Inr sample_data\<rparr>"
    by simp
  have z: "(0::int) \<le> 2"
    by simp
  note a = numResults_is_not_clamped
             [where tc = bigCall and s = firstTurnState and m = 5 and ?s1.0 = searchedOnce
                and pre = "[searchCall ''0'' ''a'']" and rest = "[]"
                and env = "sample_env (askingOnce [bigCall])"
                and args = "\<lparr>arg_query = Some ''a'', arg_numResults = Some 50\<rparr>"
                and n = 2 and fetch = sample_serper and q = "Some ''a''"
                and resp = "\<lparr>resp_ok = True, resp_json = Inr sample_data\<rparr>" and data = sample_data]
  have p1: "take (Suc (length (serperCalls searchedOnce)))
     (serperCalls (snd (executeToolCalls (sample_env (askingOnce [bigCall])) 5
                          ([searchCall ''0'' ''a''] @ bigCall # []) firstTurnState))) =
     serperCalls searchedOnce @
       [(arg_query \<lparr>arg_query = Some ''a'', arg_numResults = Some 50\<rparr>,
         case arg_numResults \<lparr>arg_query = Some ''a'', arg_numResults = Some 50\<rparr> of
           None \<Rightarrow> 10 | Some v \<Rightarrow> if v = 0 then 10 else v)]"
    using a h1 by blast
  have p2: "executeWebSearch_fixed sample_serper (Some ''a'') = executeWebSearch_gmi sample_serper (Some ''a'') (Some 5)"
    using a by blast
  have p3: "executeWebSearch_gmi sample_serper (Some ''a'') (Some 2) = Inr (normalizeResults 2 sample_data)"
    using a h2 by blast
  have p4: "executeWebSearch_cerebras sample_serper (Some ''a'') (Some 2) = Inr (normalizeResults 2 sample_data)"
    using a h2 ok by blast
  have p5: "length (res_organic (normalizeResults 2 sample_data)) \<le> nat 2"
    using a z by blast
  have e1: "serperCalls searchedOnce = [(Some ''a'', 10)]"
    by code_simp
  have e2: "res_organic (normalizeResults 2 sample_data) = take 2 sample_hits"
    by code_simp
  have p1': "take (Suc (length (serperCalls searchedOnce)))
     (serperCalls (snd (executeToolCalls (sample_env (askingOnce [bigCall])) 5
                          ([searchCall ''0'' ''a''] @ bigCall # []) firstTurnState))) =
     [(Some ''a'', 10), (Some ''a'', 50)]"
    using p1 e1 by simp
  show ?thesis
    using p1' p2 p3 p4 p5 e2 by blast
qed





end
